theory Spec2Isabelle
  imports Complex_Main "HOL-Library.Sublist"
begin

section \<open>Python values and errors\<close>

text \<open>
  The exceptions the modelled code can raise. A function that can raise returns
  \<open>py_error + 'a\<close>, with \<open>Inl\<close> for the exception.

  Python floats are modelled as real numbers: every float operation is taken to be exact.
  This is what the code computes on ratings that are integers of modest size: sums and
  means of such ratings are exact in floats, and for a rating difference of up to 6000 in
  either direction the float computation of the rating formula and the exact one round to
  the same delta (both were computed for each of the 12001 differences). Outside that
  range the two part: from a difference of 6650 on, the float \<open>1 - expected\<close> is 1.0 and
  a K-factor like 81.5 is rounded to 82 where the exact product, just below 81.5, gives
  81; and a float cannot hold an integer of magnitude \<open>2 ^ 1024\<close>. The one float
  exception the code meets at moderate inputs, the \<open>OverflowError\<close> of \<open>10.0 ** x\<close>, is a
  branch of the model. Theorems about every database carry the range as a hypothesis
  (\<open>ratings_in_range\<close> below).
\<close>

datatype py_error =
    ValueError | OverflowError | ZeroDivisionError | IntegrityError | OperationalError
  | TypeError

text \<open>
  \<open>round(x)\<close> on a float: the nearest integer, a tie going to the even neighbour.
\<close>

definition py_round :: "real \<Rightarrow> int" where
  "py_round x =
     (let f = \<lfloor>x\<rfloor>; d = x - of_int f
      in if d < 1 / 2 then f
         else if 1 / 2 < d then f + 1
         else if even f then f else f + 1)"

text \<open>\<open>int(x)\<close> on a float: truncation toward zero.\<close>

definition py_trunc :: "real \<Rightarrow> int" where
  "py_trunc x = (if 0 \<le> x then \<lfloor>x\<rfloor> else \<lceil>x\<rceil>)"

section \<open>The rating engine (bot.py)\<close>

definition DEFAULT_RATING :: int where
  "DEFAULT_RATING = 1000"

definition calculate_k_factor :: "int \<Rightarrow> int \<Rightarrow> real" where
  "calculate_k_factor r1 r2 = (let diff = \<bar>r1 - r2\<bar> in 15 + of_int diff / 100)"

text \<open>
  \<open>10.0 ** x\<close> raises \<open>OverflowError\<close> when the power is too large for a float, that is
  when it reaches \<open>2 ^ 1024\<close>; an underflow gives \<open>0.0\<close> silently, which the exact power
  stands for here.
\<close>

definition py_pow10 :: "real \<Rightarrow> py_error + real" where
  "py_pow10 x = (if 2 ^ 1024 \<le> 10 powr x then Inl OverflowError else Inr (10 powr x))"

text \<open>The local variables of \<open>calculate_elo_change\<close>, in the order the code computes them.\<close>

definition expected_score_winner :: "int \<Rightarrow> int \<Rightarrow> py_error + real" where
  "expected_score_winner rating_winner rating_loser =
     (case py_pow10 (of_int (rating_loser - rating_winner) / 400) of
        Inl e \<Rightarrow> Inl e
      | Inr p \<Rightarrow> Inr (1 / (1 + p)))"

definition delta_r :: "int \<Rightarrow> int \<Rightarrow> py_error + real" where
  "delta_r rating_winner rating_loser =
     (case expected_score_winner rating_winner rating_loser of
        Inl e \<Rightarrow> Inl e
      | Inr ex \<Rightarrow> Inr (calculate_k_factor rating_winner rating_loser * (1 - ex)))"

definition calculate_elo_change :: "int \<Rightarrow> int \<Rightarrow> py_error + int" where
  "calculate_elo_change rating_winner rating_loser =
     (case delta_r rating_winner rating_loser of
        Inl e \<Rightarrow> Inl e
      | Inr d \<Rightarrow> Inr (py_round d))"

section \<open>Id lists as text (bot_db.py, bot.py)\<close>

text \<open>
  The tables store a list of ids as the text \<open>",".join(map(str, ids))\<close>, and the handlers
  read it back with \<open>[int(i) for i in text.split(',')]\<close>.

  \<open>str_int\<close> is \<open>str\<close> on an integer: the decimal digits, after a minus sign for a
  negative number. \<open>py_int\<close> is \<open>int\<close> on a string, for the strings made of an optional
  sign and decimal digits; it raises \<open>ValueError\<close> on the empty string, on a lone sign and
  on any other character. (Python's \<open>int\<close> also accepts blanks around the number and an
  underscore between two digits; \<open>str\<close> writes neither, and the model reports \<open>ValueError\<close>
  for them.)
\<close>

definition digit_char :: "nat \<Rightarrow> char" where
  "digit_char d = char_of (48 + d)"

definition is_digit :: "char \<Rightarrow> bool" where
  "is_digit c = (48 \<le> (of_char c :: nat) \<and> (of_char c :: nat) \<le> 57)"

definition digit_val :: "char \<Rightarrow> nat" where
  "digit_val c = of_char c - 48"

fun str_nat :: "nat \<Rightarrow> string" where
  "str_nat n =
     (if n < 10 then [digit_char n] else str_nat (n div 10) @ [digit_char (n mod 10)])"

declare str_nat.simps [simp del]

definition str_int :: "int \<Rightarrow> string" where
  "str_int i = (if i < 0 then CHR ''-'' # str_nat (nat (- i)) else str_nat (nat i))"

definition nat_of_digits :: "string \<Rightarrow> nat" where
  "nat_of_digits ds = foldl (\<lambda>acc c. 10 * acc + digit_val c) 0 ds"

definition py_int :: "string \<Rightarrow> py_error + int" where
  "py_int s =
     (let neg = (take 1 s = ''-'');
          ds = (if take 1 s = ''-'' \<or> take 1 s = ''+'' then drop 1 s else s)
      in if ds \<noteq> [] \<and> list_all is_digit ds
         then Inr (if neg then - int (nat_of_digits ds) else int (nat_of_digits ds))
         else Inl ValueError)"

text \<open>\<open>sep.join(xs)\<close> and \<open>s.split(c)\<close> for a one-character separator.\<close>

fun join :: "string \<Rightarrow> string list \<Rightarrow> string" where
  "join sep [] = []"
| "join sep [x] = x"
| "join sep (x # y # ys) = x @ sep @ join sep (y # ys)"

fun split_on :: "char \<Rightarrow> string \<Rightarrow> string list" where
  "split_on c [] = [[]]"
| "split_on c (x # xs) =
     (if x = c then [] # split_on c xs
      else (let r = split_on c xs in (x # hd r) # tl r))"

text \<open>\<open>[int(i) for i in ss]\<close>: the first \<open>ValueError\<close> ends the comprehension.\<close>

fun int_list :: "string list \<Rightarrow> py_error + int list" where
  "int_list [] = Inr []"
| "int_list (s # ss) =
     (case py_int s of
        Inl e \<Rightarrow> Inl e
      | Inr i \<Rightarrow> (case int_list ss of Inl e \<Rightarrow> Inl e | Inr is \<Rightarrow> Inr (i # is)))"

definition ids_str :: "int list \<Rightarrow> string" where
  "ids_str ids = join '','' (map str_int ids)"

definition parse_ids :: "string \<Rightarrow> py_error + int list" where
  "parse_ids s = int_list (split_on CHR '','' s)"

section \<open>The database (bot_db.py)\<close>

text \<open>
  The four tables that \<open>init_db\<close> declares. A table is the list of its rows, each with its
  primary key, in the order of insertion; a value of type \<open>database\<close> is what is committed
  in the file. The methods are studied on a file in which the four tables exist.
  (\<open>init_db\<close> itself is not modelled: its first \<open>CREATE TABLE\<close> binds a parameter in a
  \<open>DEFAULT\<close> clause, which SQLite refuses as a syntax error.) \<open>time.time()\<close> is a parameter
  of the methods that read it.

  Every method opens a connection of its own, runs its statements and commits. From its
  first \<open>INSERT\<close>, \<open>UPDATE\<close> or \<open>DELETE\<close> until its commit a connection holds the write lock
  of the file. A write on another connection in that time waits for the timeout of
  \<open>sqlite3.connect\<close> (five seconds) and then raises \<open>OperationalError\<close> (database is
  locked). Two methods call a writing method between their own write and their own commit,
  \<open>get_or_create_player\<close> and \<open>finalize_match\<close>: the inner call raises, the exception leaves
  the outer method before its \<open>conn.commit()\<close>, and the outer write is rolled back when the
  connection is dropped. \<open>second_connection_write\<close> is that inner call: what it would
  commit, or the exception when the caller has an uncommitted write.
\<close>

record player =
  username :: string
  rating :: real
  wins :: int
  losses :: int
  full_name :: string

record match_row =
  m_type :: string
  m_winner_ids :: string
  m_loser_ids :: string
  m_score :: string
  m_timestamp :: real

record pending_row =
  match_type :: string
  participants :: string
  winner_ids :: string
  loser_ids :: string
  score :: string
  timestamp :: real

record database =
  players :: "(int \<times> player) list"
  user_mapping :: "(string \<times> int) list"
  matches :: "(int \<times> match_row) list"
  pending_matches :: "(int \<times> pending_row) list"

definition empty_db :: database where
  "empty_db = \<lparr>players = [], user_mapping = [], matches = [], pending_matches = []\<rparr>"

text \<open>
  \<open>SELECT ... WHERE key = k\<close> with \<open>fetchone\<close> is \<open>map_of table k\<close>. The other statements:
\<close>

definition sql_update :: "'k \<Rightarrow> ('r \<Rightarrow> 'r) \<Rightarrow> ('k \<times> 'r) list \<Rightarrow> ('k \<times> 'r) list" where
  "sql_update k f tbl = map (\<lambda>(k', r). if k' = k then (k', f r) else (k', r)) tbl"

definition sql_delete :: "'k \<Rightarrow> ('k \<times> 'r) list \<Rightarrow> ('k \<times> 'r) list" where
  "sql_delete k tbl = filter (\<lambda>(k', r). k' \<noteq> k) tbl"

text \<open>
  The key SQLite gives a row inserted without one into a table declared
  \<open>id INTEGER PRIMARY KEY\<close> (no \<open>AUTOINCREMENT\<close>), which \<open>cursor.lastrowid\<close> then returns:
  1 for an empty table, otherwise one more than the largest key in the table at that
  moment. Keys are unbounded integers here; SQLite departs from the rule once the largest
  key is \<open>2 ^ 63 - 1\<close> (it then tries unused keys at random), so what is proved of the
  keys is proved of tables whose keys are below that.
\<close>

definition next_rowid :: "(int \<times> 'r) list \<Rightarrow> int" where
  "next_rowid tbl = (if tbl = [] then 1 else Max (set (map fst tbl)) + 1)"

definition second_connection_write :: "bool \<Rightarrow> 'a \<Rightarrow> py_error + 'a" where
  "second_connection_write caller_has_uncommitted_write committed =
     (if caller_has_uncommitted_write then Inl OperationalError else Inr committed)"

definition update_user_mapping :: "database \<Rightarrow> int \<Rightarrow> string \<Rightarrow> database" where
  "update_user_mapping db user_id uname =
     db\<lparr>user_mapping :=
          (if map_of (user_mapping db) uname = None
           then user_mapping db @ [(uname, user_id)]
           else sql_update uname (\<lambda>_. user_id) (user_mapping db))\<rparr>"

definition get_user_id_by_tag :: "database \<Rightarrow> string \<Rightarrow> int option" where
  "get_user_id_by_tag db uname = map_of (user_mapping db) uname"

text \<open>
  \<open>get_or_create_player\<close>. \<open>username\<close> is \<open>UNIQUE\<close>: the \<open>UPDATE\<close> and the \<open>INSERT\<close> raise
  \<open>IntegrityError\<close> when another row has the name already. Otherwise the statement runs,
  and \<open>update_user_mapping\<close> is called before the commit: on its own connection, while this
  one holds the write lock. The player row is committed only if that call returns.
\<close>

definition get_or_create_player ::
  "database \<Rightarrow> int \<Rightarrow> string \<Rightarrow> string \<Rightarrow> py_error + database" where
  "get_or_create_player db user_id uname fname =
     (if \<exists>(k, p) \<in> set (players db). k \<noteq> user_id \<and> username p = uname
      then Inl IntegrityError
      else
        (let uncommitted_players =
               (case map_of (players db) user_id of
                  Some _ \<Rightarrow>
                    sql_update user_id (\<lambda>p. p\<lparr>username := uname, full_name := fname\<rparr>)
                      (players db)
                | None \<Rightarrow>
                    players db @
                      [(user_id, \<lparr>username = uname, rating = of_int DEFAULT_RATING,
                                  wins = 0, losses = 0, full_name = fname\<rparr>)])
         in case second_connection_write True (update_user_mapping db user_id uname) of
              Inl e \<Rightarrow> Inl e
            | Inr db1 \<Rightarrow> Inr (db1\<lparr>players := uncommitted_players\<rparr>)))"

definition get_player_rating :: "database \<Rightarrow> int \<Rightarrow> int" where
  "get_player_rating db user_id =
     (case map_of (players db) user_id of
        Some row \<Rightarrow> py_round (rating row)
      | None \<Rightarrow> DEFAULT_RATING)"

definition update_player_rating :: "database \<Rightarrow> int \<Rightarrow> int \<Rightarrow> database" where
  "update_player_rating db user_id delta_rating =
     (let is_winner = (delta_rating > 0)
      in db\<lparr>players :=
              sql_update user_id
                (\<lambda>p. if is_winner
                      then p\<lparr>rating := rating p + of_int delta_rating, wins := wins p + 1\<rparr>
                      else p\<lparr>rating := rating p + of_int delta_rating, losses := losses p + 1\<rparr>)
                (players db)\<rparr>)"

definition add_pending_match ::
  "database \<Rightarrow> string \<Rightarrow> int list \<Rightarrow> int list \<Rightarrow> int list \<Rightarrow> string \<Rightarrow> real
   \<Rightarrow> int \<times> database" where
  "add_pending_match db mtype participant_ids winner_id_list loser_id_list sc now =
     (let participants_str = ids_str participant_ids;
          winner_ids_str = ids_str winner_id_list;
          loser_ids_str = ids_str loser_id_list;
          match_id = next_rowid (pending_matches db)
      in (match_id,
          db\<lparr>pending_matches :=
               pending_matches db @
                 [(match_id, \<lparr>match_type = mtype, participants = participants_str,
                              winner_ids = winner_ids_str, loser_ids = loser_ids_str,
                              score = sc, timestamp = now\<rparr>)]\<rparr>))"

definition get_pending_match ::
  "database \<Rightarrow> int \<Rightarrow> (string \<times> string \<times> string \<times> string) option" where
  "get_pending_match db match_id =
     (case map_of (pending_matches db) match_id of
        Some row \<Rightarrow> Some (match_type row, winner_ids row, loser_ids row, score row)
      | None \<Rightarrow> None)"

definition delete_pending_match :: "database \<Rightarrow> int \<Rightarrow> database" where
  "delete_pending_match db match_id =
     db\<lparr>pending_matches := sql_delete match_id (pending_matches db)\<rparr>"

text \<open>
  \<open>finalize_match\<close>: the \<open>INSERT\<close> into \<open>matches\<close> runs, and \<open>delete_pending_match\<close> is called
  before the commit, on its own connection, while this one holds the write lock. The
  history row is committed only if that call returns.
\<close>

definition finalize_match ::
  "database \<Rightarrow> int \<Rightarrow> int list \<Rightarrow> int list \<Rightarrow> string \<Rightarrow> string \<Rightarrow> real
   \<Rightarrow> py_error + database" where
  "finalize_match db match_id winner_id_list loser_id_list sc mtype now =
     (let winner_ids_str = ids_str winner_id_list;
          loser_ids_str = ids_str loser_id_list;
          uncommitted_matches =
            matches db @
              [(next_rowid (matches db),
                \<lparr>m_type = mtype, m_winner_ids = winner_ids_str,
                 m_loser_ids = loser_ids_str, m_score = sc, m_timestamp = now\<rparr>)]
      in case second_connection_write True (delete_pending_match db match_id) of
           Inl e \<Rightarrow> Inl e
         | Inr db1 \<Rightarrow> Inr (db1\<lparr>matches := uncommitted_matches\<rparr>))"

definition delete_match_by_id :: "database \<Rightarrow> int \<Rightarrow> bool \<times> database" where
  "delete_match_by_id db match_id =
     (let deleted_rows = length (filter (\<lambda>(k, r). k = match_id) (matches db))
      in (deleted_rows > 0, db\<lparr>matches := sql_delete match_id (matches db)\<rparr>))"

section \<open>The handlers (bot.py)\<close>

text \<open>
  What a handler sends back. The texts themselves and the display names, which come from
  Telegram, are left out; each constructor stands for one message of the code and keeps
  the values the message is built from.
\<close>

datatype callback_result =
    AlreadyProcessed
  | OnlyParticipant
  | MatchConfirmed int "int list" "int list" int string

datatype reply =
    GroupChatsOnly
  | WrongFormat
  | NeedTwoPlayers
  | NeedFourPlayers
  | UserNotFound
  | ParticipantsNotUnique
  | AwaitingConfirmation int "int list" "int list" string

datatype notification = PendingExpired int int int

text \<open>\<open>sum(xs) / len(xs)\<close> on a list of integers.\<close>

definition average :: "int list \<Rightarrow> py_error + real" where
  "average xs =
     (if xs = [] then Inl ZeroDivisionError
      else Inr (of_int (sum_list xs) / of_int (int (length xs))))"

text \<open>
  \<open>process_match_confirmation\<close>, from the id of the pending match and the id of the user
  who pressed the button. The handler answers (\<open>Inr\<close>) or ends in an exception (\<open>Inl\<close>);
  either way the database it leaves is part of the result, since the rating updates are
  committed one by one before \<open>finalize_match\<close> is called. The answer
  \<open>MatchConfirmed match_id winners losers delta score\<close> is the notification of the code,
  which shows \<open>+delta\<close> for the winners and \<open>-delta\<close> for the losers.
\<close>

definition process_match_confirmation ::
  "database \<Rightarrow> int \<Rightarrow> int \<Rightarrow> real
   \<Rightarrow> (py_error \<times> database) + (callback_result \<times> database)" where
  "process_match_confirmation db match_id user_id now =
     (case get_pending_match db match_id of
        None \<Rightarrow> Inr (AlreadyProcessed, db)
      | Some (mtype, winner_ids_str, loser_ids_str, sc) \<Rightarrow>
          (case parse_ids winner_ids_str of
             Inl e \<Rightarrow> Inl (e, db)
           | Inr ws \<Rightarrow>
          (case parse_ids loser_ids_str of
             Inl e \<Rightarrow> Inl (e, db)
           | Inr ls \<Rightarrow>
               if user_id \<notin> set (ws @ ls) then Inr (OnlyParticipant, db)
               else
                 (case average (map (get_player_rating db) ws) of
                    Inl e \<Rightarrow> Inl (e, db)
                  | Inr avg_winner_rating \<Rightarrow>
                 (case average (map (get_player_rating db) ls) of
                    Inl e \<Rightarrow> Inl (e, db)
                  | Inr avg_loser_rating \<Rightarrow>
                 (case calculate_elo_change (py_trunc avg_winner_rating)
                         (py_trunc avg_loser_rating) of
                    Inl e \<Rightarrow> Inl (e, db)
                  | Inr delta \<Rightarrow>
                      (let db1 = fold (\<lambda>uid d. update_player_rating d uid delta) ws db;
                           db2 = fold (\<lambda>uid d. update_player_rating d uid (- delta)) ls db1
                       in case finalize_match db2 match_id ws ls sc mtype now of
                            Inl e \<Rightarrow> Inl (e, db2)
                          | Inr db3 \<Rightarrow>
                              Inr (MatchConfirmed match_id ws ls delta sc, db3))))))))"

text \<open>The database a run of the handler leaves, whichever way it ends.\<close>

definition database_after ::
  "(py_error \<times> database) + (callback_result \<times> database) \<Rightarrow> database" where
  "database_after outcome = (case outcome of Inl (e, db) \<Rightarrow> db | Inr (answer, db) \<Rightarrow> db)"

text \<open>
  The state of the bot besides the database: the global \<open>TARGET_CHAT_ID\<close> and the jobs
  handed to the scheduler, each with its run date and the arguments
  \<open>(pending_id, chat_id, message_id)\<close> of \<open>delete_pending_match_job\<close>.
\<close>

record job =
  run_date :: real
  job_args :: "int \<times> int \<times> int"

record bot_state =
  bot_db :: database
  TARGET_CHAT_ID :: int
  scheduler_jobs :: "job list"

text \<open>
  \<open>scheduler.add_job(.., 'date', run_date=.., args=..)\<close>. The scheduler is APScheduler 3
  (\<open>apscheduler.schedulers.asyncio\<close>), which is not part of the repository; its date
  trigger takes a datetime, a date or a string as \<open>run_date\<close> and raises \<open>TypeError\<close> for
  anything else. The code hands it the float \<open>time.time() + 2 * 3600\<close>.
\<close>

definition add_job :: "job list \<Rightarrow> job \<Rightarrow> py_error + job list" where
  "add_job jobs j = Inl TypeError"

text \<open>
  An incoming message: the type and id of its chat, its own id, and \<open>message.text.split()\<close>,
  the words of its text.
\<close>

record message =
  chat_type :: string
  chat_id :: int
  message_id :: int
  text_parts :: "string list"

text \<open>
  \<open>handle_new_result_command\<close>. Its local values \<open>tags\<close>, \<open>match_type\<close>, \<open>winner_ids\<close> and
  \<open>loser_ids\<close> are the four functions that come first: the tags are the words between the
  command and the score, without their leading \<open>@\<close>; a command that does not end in
  \<open>1vs1\<close> is a \<open>2vs2\<close>; the winners are the first one or two ids, the losers the ids after
  them.

  The two readings of \<open>time.time()\<close>, in \<open>add_pending_match\<close> and for the run date of the
  job, are the parameters \<open>t_db\<close> and \<open>t_job\<close>. The code looks every tag up once and keeps
  the ids in a dictionary; \<open>ids\<close> below holds, tag by tag, what the dictionary gives, and
  is \<open>None\<close> as soon as one tag has no id. The handler sends a reply (\<open>Inr\<close>) or ends in
  an exception (\<open>Inl\<close>), which \<open>add_job\<close> raises after the pending row is committed.
\<close>

definition command_tags :: "string list \<Rightarrow> string list" where
  "command_tags parts = map (dropWhile (\<lambda>c. c = CHR ''@'')) (butlast (tl parts))"

definition command_match_type :: "string list \<Rightarrow> string" where
  "command_match_type parts = (if suffix ''1vs1'' (hd parts) then ''1vs1'' else ''2vs2'')"

definition team_winner_ids :: "string \<Rightarrow> int list \<Rightarrow> int list" where
  "team_winner_ids mtype ids = (if mtype = ''1vs1'' then take 1 ids else take 2 ids)"

definition team_loser_ids :: "string \<Rightarrow> int list \<Rightarrow> int list" where
  "team_loser_ids mtype ids = (if mtype = ''1vs1'' then take 1 (drop 1 ids) else drop 2 ids)"

definition handle_new_result_command ::
  "bot_state \<Rightarrow> message \<Rightarrow> real \<Rightarrow> real \<Rightarrow> (py_error + reply) \<times> bot_state" where
  "handle_new_result_command s msg t_db t_job =
     (if chat_type msg \<noteq> ''group'' \<and> chat_type msg \<noteq> ''supergroup''
      then (Inr GroupChatsOnly, s)
      else
        (let s1 = (if TARGET_CHAT_ID s = 0 then s\<lparr>TARGET_CHAT_ID := chat_id msg\<rparr> else s);
             parts = text_parts msg
         in if length parts < 4 then (Inr WrongFormat, s1)
            else
              (let sc = last parts;
                   tags = command_tags parts;
                   mtype = command_match_type parts
               in if mtype = ''1vs1'' \<and> length tags \<noteq> 2 then (Inr NeedTwoPlayers, s1)
                  else if mtype = ''2vs2'' \<and> length tags \<noteq> 4
                  then (Inr NeedFourPlayers, s1)
                  else
                    (case those (map (get_user_id_by_tag (bot_db s1)) tags) of
                       None \<Rightarrow> (Inr UserNotFound, s1)
                     | Some ids \<Rightarrow>
                         (let ws = team_winner_ids mtype ids;
                              ls = team_loser_ids mtype ids;
                              participants_ids = ws @ ls
                          in if length (remdups participants_ids) \<noteq> length participants_ids
                             then (Inr ParticipantsNotUnique, s1)
                             else
                               (let (pending_id, db') =
                                      add_pending_match (bot_db s1) mtype participants_ids
                                        ws ls sc t_db;
                                    s2 = s1\<lparr>bot_db := db'\<rparr>;
                                    j = \<lparr>run_date = t_job + 2 * 3600,
                                         job_args = (pending_id, chat_id msg, message_id msg)\<rparr>
                                in case add_job (scheduler_jobs s2) j of
                                     Inl e \<Rightarrow> (Inl e, s2)
                                   | Inr jobs \<Rightarrow>
                                       (Inr (AwaitingConfirmation pending_id ws ls sc),
                                        s2\<lparr>scheduler_jobs := jobs\<rparr>)))))))"

text \<open>
  \<open>delete_pending_match_job\<close>, the job the scheduler runs two hours after the report: the
  messages it sends and the database it leaves.
\<close>

definition delete_pending_match_job ::
  "database \<Rightarrow> int \<Rightarrow> int \<Rightarrow> int \<Rightarrow> notification list \<times> database" where
  "delete_pending_match_job db match_id chat original_message_id =
     (case get_pending_match db match_id of
        Some pending_match_data \<Rightarrow>
          ([PendingExpired chat match_id original_message_id],
           delete_pending_match db match_id)
      | None \<Rightarrow> ([], db))"

text \<open>
  \<open>update_player_info\<close>: \<open>member\<close> is what Telegram answers for the user, their username (if
  they have one) and full name, or \<open>None\<close> when the request fails. Every exception is caught
  and logged, that of \<open>get_or_create_player\<close> too.
\<close>

definition update_player_info ::
  "database \<Rightarrow> int \<Rightarrow> (string option \<times> string) option \<Rightarrow> database" where
  "update_player_info db user_id member =
     (case member of
        None \<Rightarrow> db
      | Some (uname_opt, fname) \<Rightarrow>
          (let uname = (case uname_opt of
                          Some u \<Rightarrow> if u \<noteq> [] then u else str_int user_id
                        | None \<Rightarrow> str_int user_id)
           in case get_or_create_player db user_id uname fname of
                Inl e \<Rightarrow> db
              | Inr db' \<Rightarrow> db'))"

section \<open>Well-formed databases\<close>

text \<open>
  A pending row is well formed when both id lists can be read back, no id occurs twice
  among them, the teams have the sizes of the match type, and every id has a row in
  \<open>players\<close>. The database is well formed when the keys of \<open>players\<close> are distinct, every
  id in \<open>user_mapping\<close> has a row in \<open>players\<close>, and every pending row is well formed.
  These are the rows \<open>handle_new_result_command\<close> writes, and no handler makes a well-formed
  database ill-formed (see below). What is proved of a confirmation is proved of every
  well-formed database, however its player rows came to be there: the bot as it is written
  cannot add one, since \<open>get_or_create_player\<close> always raises.

  The ratings are in range when every stored rating is an integer between -3000 and
  3000, so that two ratings differ by 6000 at most: the range on which the exact
  arithmetic of the model is the float arithmetic of the code.
\<close>

definition pending_row_ok :: "database \<Rightarrow> pending_row \<Rightarrow> bool" where
  "pending_row_ok db row =
     (case parse_ids (winner_ids row) of
        Inl e \<Rightarrow> False
      | Inr ws \<Rightarrow>
     (case parse_ids (loser_ids row) of
        Inl e \<Rightarrow> False
      | Inr ls \<Rightarrow>
          distinct (ws @ ls)
          \<and> (match_type row = ''1vs1'' \<and> length ws = 1 \<and> length ls = 1
             \<or> match_type row = ''2vs2'' \<and> length ws = 2 \<and> length ls = 2)
          \<and> list_all (\<lambda>u. u \<in> set (map fst (players db))) (ws @ ls)))"

definition db_inv :: "database \<Rightarrow> bool" where
  "db_inv db =
     (distinct (map fst (players db))
      \<and> list_all (\<lambda>(tag, uid). uid \<in> set (map fst (players db))) (user_mapping db)
      \<and> list_all (\<lambda>(k, row). pending_row_ok db row) (pending_matches db))"

definition ratings_in_range :: "database \<Rightarrow> bool" where
  "ratings_in_range db =
     list_all (\<lambda>(k, p). rating p = of_int \<lfloor>rating p\<rfloor> \<and> \<bar>rating p\<bar> \<le> 3000) (players db)"

section \<open>The rating formula of the specification\<close>

text \<open>
  \<open>computeDelta\<close> in the words of the specification (section 4.1), on real ratings: the
  K-factor \<open>15 + |w - l| / 100\<close>, the expected score \<open>1 / (1 + 10 ^ ((l - w) / 400))\<close> and
  the delta \<open>round(K * (1 - expected))\<close>, rounded half to even. It is what the code's
  \<open>calculate_elo_change\<close> is compared with where the claims speak of exact means.
\<close>

definition spec_computeDelta :: "real \<Rightarrow> real \<Rightarrow> int" where
  "spec_computeDelta winnerRating loserRating =
     (let K = 15 + \<bar>winnerRating - loserRating\<bar> / 100;
          expectedWinnerScore = 1 / (1 + 10 powr ((loserRating - winnerRating) / 400))
      in py_round (K * (1 - expectedWinnerScore)))"

section \<open>Measuring a confirmation\<close>

text \<open>
  The change of a player's stored rating between two databases (0 for a player without a
  row: an \<open>UPDATE\<close> of a missing row changes nothing), and the sum of all stored ratings.
\<close>

definition rating_change :: "database \<Rightarrow> database \<Rightarrow> int \<Rightarrow> real" where
  "rating_change db db' uid =
     (case (map_of (players db) uid, map_of (players db') uid) of
        (Some p, Some p') \<Rightarrow> rating p' - rating p
      | _ \<Rightarrow> 0)"

definition total_rating :: "database \<Rightarrow> real" where
  "total_rating db = sum_list (map (\<lambda>(k, p). rating p) (players db))"

section \<open>Example states\<close>

text \<open>
  A database with two players at the default rating and one pending singles match,
  player 1 having beaten player 2.
\<close>

definition example_pending_db :: database where
  "example_pending_db =
     \<lparr>players =
        [(1, \<lparr>username = ''ann'', rating = 1000, wins = 0, losses = 0, full_name = ''Ann''\<rparr>),
         (2, \<lparr>username = ''bob'', rating = 1000, wins = 0, losses = 0, full_name = ''Bob''\<rparr>)],
      user_mapping = [(''ann'', 1), (''bob'', 2)],
      matches = [],
      pending_matches =
        [(1, \<lparr>match_type = ''1vs1'', participants = ''1,2'', winner_ids = ''1'',
               loser_ids = ''2'', score = ''11-9'', timestamp = 0\<rparr>)]\<rparr>"

text \<open>
  The bot on that database, and a doubles report in which both tags occur twice.
\<close>

definition example_state :: bot_state where
  "example_state = \<lparr>bot_db = example_pending_db, TARGET_CHAT_ID = 0, scheduler_jobs = []\<rparr>"

definition example_report :: message where
  "example_report =
     \<lparr>chat_type = ''group'', chat_id = 100, message_id = 5,
      text_parts = [''/new_result_2vs2'', ''@ann'', ''@bob'', ''@ann'', ''@bob'', ''11-9'']\<rparr>"

text \<open>
  That database after player 1 has pressed the button: the ratings have moved by 8, the
  pending row is still there and the history is empty. Then a doubles match with one
  winner rated \<open>r\<close>, and a singles match between players rated 3000 and 1000, each before
  and after a participant has pressed the button.
\<close>

definition example_moved_db :: database where
  "example_moved_db =
     \<lparr>players =
        [(1, \<lparr>username = ''ann'', rating = 1008, wins = 1, losses = 0, full_name = ''Ann''\<rparr>),
         (2, \<lparr>username = ''bob'', rating = 992, wins = 0, losses = 1, full_name = ''Bob''\<rparr>)],
      user_mapping = [(''ann'', 1), (''bob'', 2)],
      matches = [],
      pending_matches =
        [(1, \<lparr>match_type = ''1vs1'', participants = ''1,2'', winner_ids = ''1'',
               loser_ids = ''2'', score = ''11-9'', timestamp = 0\<rparr>)]\<rparr>"

definition doubles_db :: "real \<Rightarrow> database" where
  "doubles_db r =
     \<lparr>players =
        [(1, \<lparr>username = ''ann'', rating = r, wins = 0, losses = 0, full_name = ''Ann''\<rparr>),
         (2, \<lparr>username = ''bob'', rating = 1000, wins = 0, losses = 0, full_name = ''Bob''\<rparr>),
         (3, \<lparr>username = ''cat'', rating = 1000, wins = 0, losses = 0, full_name = ''Cat''\<rparr>),
         (4, \<lparr>username = ''dan'', rating = 1000, wins = 0, losses = 0, full_name = ''Dan''\<rparr>)],
      user_mapping = [(''ann'', 1), (''bob'', 2), (''cat'', 3), (''dan'', 4)],
      matches = [],
      pending_matches =
        [(1, \<lparr>match_type = ''2vs2'', participants = ''1,2,3,4'', winner_ids = ''1,2'',
               loser_ids = ''3,4'', score = ''11-9'', timestamp = 0\<rparr>)]\<rparr>"

definition doubles_moved_db :: "real \<Rightarrow> database" where
  "doubles_moved_db r =
     \<lparr>players =
        [(1, \<lparr>username = ''ann'', rating = r + 8, wins = 1, losses = 0, full_name = ''Ann''\<rparr>),
         (2, \<lparr>username = ''bob'', rating = 1008, wins = 1, losses = 0, full_name = ''Bob''\<rparr>),
         (3, \<lparr>username = ''cat'', rating = 992, wins = 0, losses = 1, full_name = ''Cat''\<rparr>),
         (4, \<lparr>username = ''dan'', rating = 992, wins = 0, losses = 1, full_name = ''Dan''\<rparr>)],
      user_mapping = [(''ann'', 1), (''bob'', 2), (''cat'', 3), (''dan'', 4)],
      matches = [],
      pending_matches =
        [(1, \<lparr>match_type = ''2vs2'', participants = ''1,2,3,4'', winner_ids = ''1,2'',
               loser_ids = ''3,4'', score = ''11-9'', timestamp = 0\<rparr>)]\<rparr>"

definition mismatch_db :: database where
  "mismatch_db =
     \<lparr>players =
        [(1, \<lparr>username = ''ann'', rating = 3000, wins = 40, losses = 2, full_name = ''Ann''\<rparr>),
         (2, \<lparr>username = ''bob'', rating = 1000, wins = 0, losses = 0, full_name = ''Bob''\<rparr>)],
      user_mapping = [(''ann'', 1), (''bob'', 2)],
      matches = [],
      pending_matches =
        [(1, \<lparr>match_type = ''1vs1'', participants = ''1,2'', winner_ids = ''1'',
               loser_ids = ''2'', score = ''11-0'', timestamp = 0\<rparr>)]\<rparr>"

definition mismatch_moved_db :: database where
  "mismatch_moved_db =
     \<lparr>players =
        [(1, \<lparr>username = ''ann'', rating = 3000, wins = 40, losses = 3, full_name = ''Ann''\<rparr>),
         (2, \<lparr>username = ''bob'', rating = 1000, wins = 0, losses = 1, full_name = ''Bob''\<rparr>)],
      user_mapping = [(''ann'', 1), (''bob'', 2)],
      matches = [],
      pending_matches =
        [(1, \<lparr>match_type = ''1vs1'', participants = ''1,2'', winner_ids = ''1'',
               loser_ids = ''2'', score = ''11-0'', timestamp = 0\<rparr>)]\<rparr>"

section \<open>Properties of the rating engine\<close>

lemma py_round_half_even: "even n \<Longrightarrow> py_round (of_int n - 1 / 2) = n"
proof -
  assume ev: "even n"
  have fl: "\<lfloor>of_int n - (1 / 2 :: real)\<rfloor> = n - 1"
    by (rule floor_unique) auto
  have odd: "\<not> even (n - 1)" using ev by simp
  show ?thesis
    unfolding py_round_def Let_def fl using odd by simp
qed

lemma py_pow10_zero: "py_pow10 0 = Inr 1"
  by (simp add: py_pow10_def)

lemma py_round_between:
  assumes "of_int n \<le> x" and "x < of_int n + 1 / 2"
  shows "py_round x = n"
proof -
  have fl: "\<lfloor>x\<rfloor> = n" using assms by (intro floor_unique) auto
  show ?thesis unfolding py_round_def Let_def fl using assms by simp
qed

lemma pow10_minus5: "10 powr (- 5 :: real) = 1 / 100000"
proof -
  have "10 powr (- 5 :: real) = 1 / 10 powr (5 :: real)" by (simp add: powr_minus_divide)
  also have "10 powr (5 :: real) = 10 ^ 5" by (simp add: powr_numeral)
  finally show ?thesis by simp
qed

lemma py_pow10_minus5: "py_pow10 (- 5) = Inr (1 / 100000)"
proof -
  have "(1 / 100000 :: real) < 2 ^ 1024"
    by (rule less_le_trans [of _ 1]) simp_all
  then show ?thesis by (simp add: py_pow10_def pow10_minus5)
qed

lemma calculate_elo_change_3000_1000: "calculate_elo_change 3000 1000 = Inr 0"
proof -
  have e: "expected_score_winner 3000 1000 = Inr (100000 / 100001)"
    by (simp add: expected_score_winner_def py_pow10_minus5)
  have k: "calculate_k_factor 3000 1000 = 35"
    by (simp add: calculate_k_factor_def)
  have d: "delta_r 3000 1000 = Inr (35 / 100001)"
    by (simp add: delta_r_def e k)
  have r: "py_round (35 / 100001) = 0"
    by (rule py_round_between) simp_all
  show ?thesis by (simp add: calculate_elo_change_def d r)
qed

lemma pow10_800th_bounds:
  defines "t \<equiv> 10 powr (- (1 / 800) :: real)"
  shows "7 / 8 \<le> t" and "t < 1500 / 1501"
proof -
  have pos: "0 < t" by (simp add: t_def)
  have "t powr 800 = 10 powr (- (1 / 800) * 800)"
    unfolding t_def by (rule powr_powr)
  also have "\<dots> = 1 / 10" by (simp add: powr_minus_divide)
  finally have "t powr 800 = 1 / 10" .
  moreover have "t powr 800 = t ^ 800" using pos by (simp add: powr_numeral)
  ultimately have p: "t ^ 800 = 1 / 10" by simp
  show "7 / 8 \<le> t"
  proof (rule ccontr)
    assume "\<not> 7 / 8 \<le> t"
    then have "t \<le> 7 / 8" by simp
    then have "t ^ 800 \<le> (7 / 8) ^ 800" using pos by (intro power_mono) simp_all
    also have "\<dots> \<le> (7 / 8 :: real) ^ 18" by (rule power_decreasing) simp_all
    also have "\<dots> < 1 / 10" by (simp add: power_divide)
    finally show False using p by simp
  qed
  show "t < 1500 / 1501"
  proof (rule ccontr)
    assume "\<not> t < 1500 / 1501"
    then have "(1500 / 1501 :: real) \<le> t" by simp
    then have "(1500 / 1501) ^ 800 \<le> t ^ 800" by (intro power_mono) simp_all
    moreover have "1 + real 800 * (- (1 / 1501)) \<le> (1 + (- (1 / 1501))) ^ 800"
      by (rule Bernoulli_inequality) simp
    ultimately show False using p by simp
  qed
qed

lemma spec_computeDelta_half_point: "spec_computeDelta (2001 / 2) 1000 = 7"
proof -
  define t where "t = 10 powr (- (1 / 800) :: real)"
  have lo: "7 / 8 \<le> t" and hi: "t < 1500 / 1501"
    using pow10_800th_bounds by (simp_all add: t_def)
  have pos: "0 < 1 + t" using lo by simp
  have raw: "(15 + \<bar>2001 / 2 - 1000\<bar> / 100) * (1 - 1 / (1 + 10 powr ((1000 - 2001 / 2) / 400)))
             = 3001 / 200 * (t / (1 + t))" (is "?raw = _")
  proof -
    have "10 powr ((1000 - 2001 / 2) / 400 :: real) = t" by (simp add: t_def)
    moreover have "1 - 1 / (1 + t) = t / (1 + t)" using pos by (simp add: field_simps)
    ultimately show ?thesis by simp
  qed
  have a: "7 \<le> 3001 / 200 * (t / (1 + t))" using lo pos by (simp add: field_simps)
  have b: "3001 / 200 * (t / (1 + t)) < 7 + 1 / 2" using hi pos by (simp add: field_simps)
  have "py_round (3001 / 200 * (t / (1 + t))) = 7"
    by (rule py_round_between) (use a b in simp_all)
  then show ?thesis unfolding spec_computeDelta_def Let_def raw .
qed

section \<open>Id lists survive the round trip through text\<close>

lemma digit_val_char: "d < 10 \<Longrightarrow> digit_val (digit_char d) = d"
  by (simp add: digit_val_def digit_char_def)

lemma is_digit_char: "d < 10 \<Longrightarrow> is_digit (digit_char d)"
  by (simp add: is_digit_def digit_char_def)

lemma str_nat_digits: "list_all is_digit (str_nat n)"
proof (induction n rule: str_nat.induct)
  case (1 n)
  show ?case
  proof (cases "n < 10")
    case True
    then show ?thesis by (subst str_nat.simps) (simp add: is_digit_char)
  next
    case False
    with 1 show ?thesis by (subst str_nat.simps) (simp add: is_digit_char)
  qed
qed

lemma str_nat_nonempty: "str_nat n \<noteq> []"
  by (subst str_nat.simps) simp

lemma nat_of_digits_snoc: "nat_of_digits (ds @ [c]) = 10 * nat_of_digits ds + digit_val c"
  by (simp add: nat_of_digits_def)

lemma nat_of_digits_str_nat: "nat_of_digits (str_nat n) = n"
proof (induction n rule: str_nat.induct)
  case (1 n)
  show ?case
  proof (cases "n < 10")
    case True
    then show ?thesis
      by (subst str_nat.simps) (simp add: nat_of_digits_def digit_val_char)
  next
    case False
    with 1 have "nat_of_digits (str_nat (n div 10)) = n div 10" by simp
    with False show ?thesis
      by (subst str_nat.simps) (simp add: nat_of_digits_snoc digit_val_char)
  qed
qed

lemma is_digit_not_sign: "is_digit c \<Longrightarrow> c \<noteq> CHR ''-'' \<and> c \<noteq> CHR ''+'' \<and> c \<noteq> CHR '',''"
  by (auto simp: is_digit_def)

lemma str_nat_hd: "take 1 (str_nat n) \<noteq> ''-'' \<and> take 1 (str_nat n) \<noteq> ''+''"
proof -
  obtain c cs where eq: "str_nat n = c # cs"
    using str_nat_nonempty [of n] by (cases "str_nat n") auto
  have "is_digit c" using str_nat_digits [of n] eq by simp
  then show ?thesis using eq is_digit_not_sign [of c] by simp
qed

lemma py_int_str_int: "py_int (str_int i) = Inr i"
proof (cases "i < 0")
  case True
  then show ?thesis
    by (simp add: py_int_def str_int_def str_nat_nonempty str_nat_digits nat_of_digits_str_nat)
next
  case False
  then show ?thesis
    using str_nat_hd [of "nat i"]
    by (simp add: py_int_def str_int_def str_nat_nonempty str_nat_digits nat_of_digits_str_nat)
qed

lemma str_int_no_comma: "CHR '','' \<notin> set (str_int i)"
proof -
  have "\<And>n. CHR '','' \<notin> set (str_nat n)"
    using str_nat_digits is_digit_not_sign by (fastforce simp: list_all_iff)
  then show ?thesis by (simp add: str_int_def)
qed

lemma split_on_no_sep: "c \<notin> set s \<Longrightarrow> split_on c s = [s]"
  by (induction s) auto

lemma split_on_append: "c \<notin> set s \<Longrightarrow> split_on c (s @ c # t) = s # split_on c t"
  by (induction s) auto

lemma split_on_join:
  "xs \<noteq> [] \<Longrightarrow> \<forall>x \<in> set xs. c \<notin> set x \<Longrightarrow> split_on c (join [c] xs) = xs"
proof (induction "[c]" xs rule: join.induct)
  case 1
  then show ?case by simp
next
  case (2 x)
  then show ?case by (simp add: split_on_no_sep)
next
  case (3 x y ys)
  then show ?case by (simp add: split_on_append)
qed

lemma int_list_str: "int_list (map str_int ids) = Inr ids"
  by (induction ids) (simp_all add: py_int_str_int)

lemma parse_ids_str: "ids \<noteq> [] \<Longrightarrow> parse_ids (ids_str ids) = Inr ids"
  by (simp add: parse_ids_def ids_str_def split_on_join str_int_no_comma int_list_str)

section \<open>Tables\<close>

lemma map_of_sql_update:
  "map_of (sql_update k f tbl) k' = (if k' = k then map_option f (map_of tbl k') else map_of tbl k')"
  by (induction tbl) (auto simp: sql_update_def)

lemma keys_sql_update: "map fst (sql_update k f tbl) = map fst tbl"
  by (induction tbl) (auto simp: sql_update_def)

lemma map_of_sql_delete:
  "map_of (sql_delete k tbl) k' = (if k' = k then None else map_of tbl k')"
  by (induction tbl) (auto simp: sql_delete_def)

lemma set_sql_delete: "set (sql_delete k tbl) \<subseteq> set tbl"
  by (auto simp: sql_delete_def)

lemma next_rowid_greater: "k \<in> fst ` set tbl \<Longrightarrow> k < next_rowid tbl"
proof -
  assume k: "k \<in> fst ` set tbl"
  then have ne: "tbl \<noteq> []" by auto
  have "k \<le> Max (set (map fst tbl))" using k by (intro Max_ge) auto
  with ne show ?thesis by (simp add: next_rowid_def)
qed

text \<open>The players table after the rating updates of one team.\<close>

lemma players_update_player_rating:
  "map_of (players (update_player_rating db u d)) k =
     (if k = u
      then map_option (\<lambda>p. if d > 0 then p\<lparr>rating := rating p + of_int d, wins := wins p + 1\<rparr>
                            else p\<lparr>rating := rating p + of_int d, losses := losses p + 1\<rparr>)
             (map_of (players db) k)
      else map_of (players db) k)"
  by (simp add: update_player_rating_def map_of_sql_update)

lemma other_tables_update_player_rating:
  "user_mapping (update_player_rating db u d) = user_mapping db"
  "matches (update_player_rating db u d) = matches db"
  "pending_matches (update_player_rating db u d) = pending_matches db"
  "map fst (players (update_player_rating db u d)) = map fst (players db)"
  by (simp_all add: update_player_rating_def keys_sql_update)

lemma fold_update_other_tables:
  "user_mapping (fold (\<lambda>uid x. update_player_rating x uid d) us db) = user_mapping db"
  "matches (fold (\<lambda>uid x. update_player_rating x uid d) us db) = matches db"
  "pending_matches (fold (\<lambda>uid x. update_player_rating x uid d) us db) = pending_matches db"
  "map fst (players (fold (\<lambda>uid x. update_player_rating x uid d) us db)) = map fst (players db)"
  by (induction us arbitrary: db; simp add: other_tables_update_player_rating)+

lemma fold_update_players:
  "distinct us \<Longrightarrow>
   map_of (players (fold (\<lambda>uid x. update_player_rating x uid d) us db)) k =
     (if k \<in> set us
      then map_option (\<lambda>p. if d > 0 then p\<lparr>rating := rating p + of_int d, wins := wins p + 1\<rparr>
                            else p\<lparr>rating := rating p + of_int d, losses := losses p + 1\<rparr>)
             (map_of (players db) k)
      else map_of (players db) k)"
proof (induction us arbitrary: db)
  case Nil
  then show ?case by simp
next
  case (Cons u us)
  then show ?case
    by (auto simp: players_update_player_rating)
qed

section \<open>Well-formed databases stay well formed\<close>

lemma pending_row_ok_mono:
  assumes "pending_row_ok db row" and "fst ` set (players db) \<subseteq> fst ` set (players db')"
  shows "pending_row_ok db' row"
  using assms
  by (auto simp: pending_row_ok_def list_all_iff split: sum.splits)

lemma db_inv_mono:
  assumes inv: "db_inv db"
    and dist: "distinct (map fst (players db'))"
    and keys: "fst ` set (players db) \<subseteq> fst ` set (players db')"
    and um: "\<And>tag uid. (tag, uid) \<in> set (user_mapping db') \<Longrightarrow>
               (tag, uid) \<in> set (user_mapping db) \<or> uid \<in> fst ` set (players db')"
    and pm: "\<And>k row. (k, row) \<in> set (pending_matches db') \<Longrightarrow>
               (k, row) \<in> set (pending_matches db) \<or> pending_row_ok db' row"
  shows "db_inv db'"
proof -
  have a: "list_all (\<lambda>(tag, uid). uid \<in> set (map fst (players db'))) (user_mapping db')"
    unfolding list_all_iff
  proof (clarify)
    fix tag uid assume m: "(tag, uid) \<in> set (user_mapping db')"
    from um [OF m] show "uid \<in> set (map fst (players db'))"
    proof
      assume "(tag, uid) \<in> set (user_mapping db)"
      with inv have "uid \<in> fst ` set (players db)"
        by (auto simp: db_inv_def list_all_iff)
      with keys show ?thesis by auto
    qed simp
  qed
  have b: "list_all (\<lambda>(k, row). pending_row_ok db' row) (pending_matches db')"
    unfolding list_all_iff
  proof (clarify)
    fix k row assume m: "(k, row) \<in> set (pending_matches db')"
    from pm [OF m] show "pending_row_ok db' row"
    proof
      assume "(k, row) \<in> set (pending_matches db)"
      with inv have "pending_row_ok db row"
        by (auto simp: db_inv_def list_all_iff)
      then show ?thesis using keys by (rule pending_row_ok_mono)
    qed simp
  qed
  from dist a b show ?thesis by (simp add: db_inv_def)
qed

lemma keys_fold_update:
  "fst ` set (players (fold (\<lambda>uid x. update_player_rating x uid d) us db)) = fst ` set (players db)"
  using arg_cong [OF fold_update_other_tables(4) [of d us db], of set] by simp

lemma db_inv_empty: "db_inv empty_db"
  by (simp add: db_inv_def empty_db_def)

lemma db_inv_distinct: "db_inv db \<Longrightarrow> distinct (map fst (players db))"
  by (simp add: db_inv_def)

lemma db_inv_fold_update:
  "db_inv db \<Longrightarrow> db_inv (fold (\<lambda>uid x. update_player_rating x uid d) us db)"
  by (rule db_inv_mono [where db = db])
     (simp_all add: fold_update_other_tables db_inv_distinct keys_fold_update)

lemma db_inv_delete_pending_match: "db_inv db \<Longrightarrow> db_inv (delete_pending_match db k)"
  by (rule db_inv_mono [where db = db])
     (auto simp: delete_pending_match_def db_inv_distinct sql_delete_def)

lemma second_connection_write_locked: "second_connection_write True x = Inl OperationalError"
  by (simp add: second_connection_write_def)

text \<open>
  The two methods that write on a second connection before committing never get through:
  \<open>finalize_match\<close> always raises, and \<open>get_or_create_player\<close> raises one error or the other.
  Neither writes anything.
\<close>

lemma finalize_match_raises: "finalize_match db k ws ls sc mt now = Inl OperationalError"
  by (simp add: finalize_match_def Let_def second_connection_write_locked)

lemma get_or_create_player_raises:
  "get_or_create_player db uid uname fname = Inl IntegrityError
   \<or> get_or_create_player db uid uname fname = Inl OperationalError"
  by (simp add: get_or_create_player_def Let_def second_connection_write_locked)

lemma get_or_create_player_never_returns: "get_or_create_player db uid uname fname \<noteq> Inr db'"
  using get_or_create_player_raises [of db uid uname fname] by auto

lemma update_player_info_writes_nothing: "update_player_info db uid member = db"
  by (auto simp: update_player_info_def Let_def get_or_create_player_never_returns
        split: option.splits sum.splits)

lemma db_inv_delete_match_by_id: "db_inv db \<Longrightarrow> db_inv (snd (delete_match_by_id db k))"
  by (rule db_inv_mono [where db = db])
     (auto simp: delete_match_by_id_def db_inv_distinct Let_def)

lemma db_inv_process_match_confirmation:
  assumes "db_inv db"
  shows "db_inv (database_after (process_match_confirmation db match_id uid now))"
  using assms
  by (auto simp: process_match_confirmation_def database_after_def Let_def
        finalize_match_raises
        intro!: db_inv_fold_update
        split: option.splits sum.splits if_splits)

lemma db_inv_delete_pending_match_job:
  "db_inv db \<Longrightarrow> db_inv (snd (delete_pending_match_job db k c m))"
  by (auto simp: delete_pending_match_job_def db_inv_delete_pending_match split: option.splits)

lemma db_inv_add_pending_match:
  assumes inv: "db_inv db"
    and ok: "ws \<noteq> []" "ls \<noteq> []" "distinct (ws @ ls)"
      "mt = ''1vs1'' \<and> length ws = 1 \<and> length ls = 1 \<or> mt = ''2vs2'' \<and> length ws = 2 \<and> length ls = 2"
      "set (ws @ ls) \<subseteq> fst ` set (players db)"
  shows "db_inv (snd (add_pending_match db mt ps ws ls sc now))"
proof (rule db_inv_mono [OF inv])
  let ?db' = "snd (add_pending_match db mt ps ws ls sc now)"
  have pl: "players ?db' = players db" and um: "user_mapping ?db' = user_mapping db"
    by (simp_all add: add_pending_match_def Let_def)
  show "distinct (map fst (players ?db'))" using inv by (simp add: pl db_inv_distinct)
  show "fst ` set (players db) \<subseteq> fst ` set (players ?db')" by (simp add: pl)
  show "\<And>tag uid. (tag, uid) \<in> set (user_mapping ?db') \<Longrightarrow>
          (tag, uid) \<in> set (user_mapping db) \<or> uid \<in> fst ` set (players ?db')"
    by (simp add: um)
  show "\<And>k row. (k, row) \<in> set (pending_matches ?db') \<Longrightarrow>
          (k, row) \<in> set (pending_matches db) \<or> pending_row_ok ?db' row"
    using ok
    by (auto simp: add_pending_match_def Let_def pending_row_ok_def parse_ids_str list_all_iff)
qed

lemma those_map_Some:
  "those (map f xs) = Some ys \<Longrightarrow>
     length ys = length xs \<and> (\<forall>y \<in> set ys. \<exists>x \<in> set xs. f x = Some y)"
proof (induction xs arbitrary: ys)
  case Nil
  then show ?case by simp
next
  case (Cons x xs)
  then show ?case
    by (fastforce split: option.splits)
qed

lemma distinct_if_no_duplicates: "length (remdups xs) = length xs \<Longrightarrow> distinct xs"
  by (simp add: length_remdups_eq remdups_id_iff_distinct)

lemma new_result_teams:
  assumes ids: "those (map (get_user_id_by_tag db) tags) = Some ids"
    and len: "mt = ''1vs1'' \<and> length tags = 2 \<or> mt = ''2vs2'' \<and> length tags = 4"
    and ws: "ws = team_winner_ids mt ids"
    and ls: "ls = team_loser_ids mt ids"
    and nodup: "length (remdups (ws @ ls)) = length (ws @ ls)"
  shows "distinct (ws @ ls)
       \<and> (mt = ''1vs1'' \<and> length ws = 1 \<and> length ls = 1
          \<or> mt = ''2vs2'' \<and> length ws = 2 \<and> length ls = 2)
       \<and> (\<forall>u \<in> set (ws @ ls). \<exists>tag. get_user_id_by_tag db tag = Some u)"
proof -
  from those_map_Some [OF ids]
  have l: "length ids = length tags"
    and r: "\<forall>y \<in> set ids. \<exists>x. get_user_id_by_tag db x = Some y"
    by auto
  have sub: "set (ws @ ls) \<subseteq> set ids"
    using ws ls
    by (auto simp: team_winner_ids_def team_loser_ids_def dest: in_set_takeD in_set_dropD
          split: if_splits)
  have sizes: "mt = ''1vs1'' \<and> length ws = 1 \<and> length ls = 1
             \<or> mt = ''2vs2'' \<and> length ws = 2 \<and> length ls = 2"
    using len l ws ls by (auto simp: team_winner_ids_def team_loser_ids_def split: if_splits)
  show ?thesis
    using distinct_if_no_duplicates [OF nodup] sizes r sub by blast
qed

text \<open>
  What \<open>handle_new_result_command\<close> does to the database: nothing, or one
  \<open>add_pending_match\<close> of two teams of resolved ids, all different, of sizes 1 and 1 or
  2 and 2, after which it ends in the \<open>TypeError\<close> of \<open>add_job\<close>. It never schedules a job.
\<close>

lemma handle_new_result_command_db:
  assumes run: "handle_new_result_command s msg t_db t_job = (r, s')"
  shows "scheduler_jobs s' = scheduler_jobs s
       \<and> (bot_db s' = bot_db s
          \<or> (\<exists>mt ws ls sc pid.
               r = Inl TypeError
             \<and> (pid, bot_db s') = add_pending_match (bot_db s) mt (ws @ ls) ws ls sc t_db
             \<and> distinct (ws @ ls)
             \<and> (mt = ''1vs1'' \<and> length ws = 1 \<and> length ls = 1
                \<or> mt = ''2vs2'' \<and> length ws = 2 \<and> length ls = 2)
             \<and> (\<forall>u \<in> set (ws @ ls). \<exists>tag. get_user_id_by_tag (bot_db s) tag = Some u)))"
proof -
  define s1 where "s1 = (if TARGET_CHAT_ID s = 0 then s\<lparr>TARGET_CHAT_ID := chat_id msg\<rparr> else s)"
  define tags where "tags = command_tags (text_parts msg)"
  define mt where "mt = command_match_type (text_parts msg)"
  define sc where "sc = last (text_parts msg)"
  have db1: "bot_db s1 = bot_db s" "scheduler_jobs s1 = scheduler_jobs s"
    by (simp_all add: s1_def)
  note run' = run [unfolded handle_new_result_command_def Let_def,
      folded s1_def tags_def mt_def sc_def]
  show ?thesis
  proof (cases "chat_type msg \<noteq> ''group'' \<and> chat_type msg \<noteq> ''supergroup''")
    case True
    with run' show ?thesis by auto
  next
    case group: False
    show ?thesis
    proof (cases "length (text_parts msg) < 4
        \<or> (mt = ''1vs1'' \<and> length tags \<noteq> 2) \<or> (mt = ''2vs2'' \<and> length tags \<noteq> 4)")
      case True
      with run' group db1 show ?thesis by (auto split: if_splits)
    next
      case fmt: False
      then have len: "mt = ''1vs1'' \<and> length tags = 2 \<or> mt = ''2vs2'' \<and> length tags = 4"
        by (auto simp: mt_def command_match_type_def)
      show ?thesis
      proof (cases "those (map (get_user_id_by_tag (bot_db s1)) tags)")
        case None
        with run' group fmt db1 show ?thesis by (auto split: if_splits)
      next
        case (Some ids)
        define ws where "ws = team_winner_ids mt ids"
        define ls where "ls = team_loser_ids mt ids"
        have step:
          "(if length (remdups (ws @ ls)) \<noteq> length (ws @ ls)
            then (Inr ParticipantsNotUnique, s1)
            else (case add_pending_match (bot_db s1) mt (ws @ ls) ws ls sc t_db of
                    (pending_id, db') \<Rightarrow> (Inl TypeError, s1\<lparr>bot_db := db'\<rparr>)))
           = (r, s')"
          using run' group fmt Some unfolding ws_def ls_def
          by (simp add: add_job_def split: if_splits)
        show ?thesis
        proof (cases "length (remdups (ws @ ls)) \<noteq> length (ws @ ls)")
          case True
          with step db1 show ?thesis by auto
        next
          case False
          then have nodup: "length (remdups (ws @ ls)) = length (ws @ ls)" by simp
          obtain pid db' where add: "add_pending_match (bot_db s1) mt (ws @ ls) ws ls sc t_db = (pid, db')"
            by (cases "add_pending_match (bot_db s1) mt (ws @ ls) ws ls sc t_db")
          from step nodup add
          have r: "r = Inl TypeError" and s': "bot_db s' = db'"
            and j: "scheduler_jobs s' = scheduler_jobs s1"
            by auto
          from new_result_teams [OF Some [unfolded db1(1)] len ws_def ls_def nodup]
          have "r = Inl TypeError
             \<and> (pid, bot_db s') = add_pending_match (bot_db s) mt (ws @ ls) ws ls sc t_db
             \<and> distinct (ws @ ls)
             \<and> (mt = ''1vs1'' \<and> length ws = 1 \<and> length ls = 1
                \<or> mt = ''2vs2'' \<and> length ws = 2 \<and> length ls = 2)
             \<and> (\<forall>u \<in> set (ws @ ls). \<exists>tag. get_user_id_by_tag (bot_db s) tag = Some u)"
            using add r s' db1 by simp
          then have "\<exists>mt ws ls sc pid.
               r = Inl TypeError
             \<and> (pid, bot_db s') = add_pending_match (bot_db s) mt (ws @ ls) ws ls sc t_db
             \<and> distinct (ws @ ls)
             \<and> (mt = ''1vs1'' \<and> length ws = 1 \<and> length ls = 1
                \<or> mt = ''2vs2'' \<and> length ws = 2 \<and> length ls = 2)
             \<and> (\<forall>u \<in> set (ws @ ls). \<exists>tag. get_user_id_by_tag (bot_db s) tag = Some u)"
            by blast
          with j db1 show ?thesis by simp
        qed
      qed
    qed
  qed
qed

lemma db_inv_handle_new_result_command:
  assumes inv: "db_inv (bot_db s)"
  shows "db_inv (bot_db (snd (handle_new_result_command s msg t_db t_job)))"
proof -
  obtain r s' where eq: "handle_new_result_command s msg t_db t_job = (r, s')"
    by (cases "handle_new_result_command s msg t_db t_job")
  from handle_new_result_command_db [OF eq]
  consider (same) "bot_db s' = bot_db s"
    | (added) mt ws ls sc pid where
        "(pid, bot_db s') = add_pending_match (bot_db s) mt (ws @ ls) ws ls sc t_db"
        "distinct (ws @ ls)"
        "mt = ''1vs1'' \<and> length ws = 1 \<and> length ls = 1
         \<or> mt = ''2vs2'' \<and> length ws = 2 \<and> length ls = 2"
        "\<forall>u \<in> set (ws @ ls). \<exists>tag. get_user_id_by_tag (bot_db s) tag = Some u"
    by blast
  then show ?thesis
  proof cases
    case same
    with inv eq show ?thesis by simp
  next
    case added
    note add = added(1) and d = added(2) and sz = added(3) and known = added(4)
    have sub: "set (ws @ ls) \<subseteq> fst ` set (players (bot_db s))"
    proof
      fix u assume "u \<in> set (ws @ ls)"
      with known obtain tag where "map_of (user_mapping (bot_db s)) tag = Some u"
        by (auto simp: get_user_id_by_tag_def)
      then have "(tag, u) \<in> set (user_mapping (bot_db s))" by (rule map_of_SomeD)
      with inv show "u \<in> fst ` set (players (bot_db s))"
        by (auto simp: db_inv_def list_all_iff)
    qed
    from sz have ne: "ws \<noteq> []" "ls \<noteq> []" by auto
    have "db_inv (snd (add_pending_match (bot_db s) mt (ws @ ls) ws ls sc t_db))"
      by (rule db_inv_add_pending_match [OF inv ne d sz sub])
    with add [symmetric] eq show ?thesis by simp
  qed
qed

section \<open>What a confirmation does\<close>

text \<open>
  A confirmation by a participant, once the delta is computed: both teams are updated,
  and the handler ends in the exception of \<open>finalize_match\<close>.
\<close>

lemma confirmation_eval:
  assumes "map_of (pending_matches db) match_id = Some row"
    and "parse_ids (winner_ids row) = Inr ws" and "parse_ids (loser_ids row) = Inr ls"
    and "uid \<in> set (ws @ ls)"
    and "average (map (get_player_rating db) ws) = Inr aw"
    and "average (map (get_player_rating db) ls) = Inr al"
    and "calculate_elo_change (py_trunc aw) (py_trunc al) = Inr delta"
  shows "process_match_confirmation db match_id uid now =
           Inl (OperationalError,
                fold (\<lambda>u d. update_player_rating d u (- delta)) ls
                  (fold (\<lambda>u d. update_player_rating d u delta) ws db))"
  using assms
  by (simp add: process_match_confirmation_def get_pending_match_def Let_def
        finalize_match_raises)

text \<open>
  Whatever the handler does, it leaves the database it found or the database with both
  teams updated by one delta. It never answers that the match is confirmed, never writes a
  history row and never removes a pending row.
\<close>

lemma confirmation_outcomes:
  "database_after (process_match_confirmation db match_id uid now) = db
   \<or> (\<exists>row ws ls aw al delta.
         map_of (pending_matches db) match_id = Some row
       \<and> parse_ids (winner_ids row) = Inr ws \<and> parse_ids (loser_ids row) = Inr ls
       \<and> uid \<in> set (ws @ ls)
       \<and> average (map (get_player_rating db) ws) = Inr aw
       \<and> average (map (get_player_rating db) ls) = Inr al
       \<and> calculate_elo_change (py_trunc aw) (py_trunc al) = Inr delta
       \<and> process_match_confirmation db match_id uid now =
           Inl (OperationalError,
                fold (\<lambda>u d. update_player_rating d u (- delta)) ls
                  (fold (\<lambda>u d. update_player_rating d u delta) ws db)))"
proof (cases "map_of (pending_matches db) match_id")
  case None
  then show ?thesis
    by (simp add: process_match_confirmation_def get_pending_match_def database_after_def)
next
  case (Some row)
  then have g: "get_pending_match db match_id =
      Some (match_type row, winner_ids row, loser_ids row, score row)"
    by (simp add: get_pending_match_def)
  show ?thesis
  proof (cases "parse_ids (winner_ids row)")
    case Inl
    then show ?thesis by (simp add: process_match_confirmation_def g database_after_def)
  next
    case w: (Inr ws)
    show ?thesis
    proof (cases "parse_ids (loser_ids row)")
      case Inl
      then show ?thesis by (simp add: process_match_confirmation_def g w database_after_def)
    next
      case l: (Inr ls)
      show ?thesis
      proof (cases "uid \<in> set (ws @ ls)")
        case False
        then show ?thesis
          by (simp add: process_match_confirmation_def g w l database_after_def)
      next
        case part: True
        show ?thesis
        proof (cases "average (map (get_player_rating db) ws)")
          case Inl
          then show ?thesis
            using part by (simp add: process_match_confirmation_def g w l database_after_def)
        next
          case aw: (Inr aw)
          show ?thesis
          proof (cases "average (map (get_player_rating db) ls)")
            case Inl
            then show ?thesis
              using part
              by (simp add: process_match_confirmation_def g w l aw database_after_def)
          next
            case al: (Inr al)
            show ?thesis
            proof (cases "calculate_elo_change (py_trunc aw) (py_trunc al)")
              case Inl
              then show ?thesis
                using part
                by (simp add: process_match_confirmation_def g w l aw al database_after_def)
            next
              case d: (Inr delta)
              from confirmation_eval [OF Some w l part aw al d, of now] Some w l part aw al d
              show ?thesis by blast
            qed
          qed
        qed
      qed
    qed
  qed
qed

lemma confirmation_never_finalizes:
  "process_match_confirmation db match_id uid now \<noteq> Inr (MatchConfirmed mid ws ls delta sc, db')"
  using confirmation_outcomes [of db match_id uid now]
  by (auto simp: process_match_confirmation_def get_pending_match_def Let_def
        finalize_match_raises split: option.splits sum.splits if_splits)

lemma confirmation_keeps_other_tables:
  "pending_matches (database_after (process_match_confirmation db match_id uid now))
     = pending_matches db"
  "matches (database_after (process_match_confirmation db match_id uid now)) = matches db"
  "user_mapping (database_after (process_match_confirmation db match_id uid now))
     = user_mapping db"
  using confirmation_outcomes [of db match_id uid now]
  by (auto simp: database_after_def fold_update_other_tables)

lemma confirmation_teams:
  assumes inv: "db_inv db"
    and row: "map_of (pending_matches db) match_id = Some row"
    and ws: "parse_ids (winner_ids row) = Inr ws" and ls: "parse_ids (loser_ids row) = Inr ls"
  shows "distinct (ws @ ls)"
    and "match_type row = ''1vs1'' \<and> length ws = 1 \<and> length ls = 1
         \<or> match_type row = ''2vs2'' \<and> length ws = 2 \<and> length ls = 2"
    and "set (ws @ ls) \<subseteq> fst ` set (players db)"
proof -
  from row have "(match_id, row) \<in> set (pending_matches db)" by (rule map_of_SomeD)
  with inv have ok: "pending_row_ok db row" by (auto simp: db_inv_def list_all_iff)
  from ok ws ls show "distinct (ws @ ls)" by (simp add: pending_row_ok_def)
  from ok ws ls show "match_type row = ''1vs1'' \<and> length ws = 1 \<and> length ls = 1
         \<or> match_type row = ''2vs2'' \<and> length ws = 2 \<and> length ls = 2"
    by (simp add: pending_row_ok_def)
  from ok ws ls show "set (ws @ ls) \<subseteq> fst ` set (players db)"
    by (auto simp: pending_row_ok_def list_all_iff)
qed

text \<open>
  The row of a player after both teams are updated: a winner's row with \<open>delta\<close> applied, a
  loser's row with \<open>- delta\<close> applied, anybody else's row as it was.
\<close>

lemma updated_players:
  assumes "distinct (ws @ ls)"
  shows "map_of (players (fold (\<lambda>u d. update_player_rating d u (- delta)) ls
                            (fold (\<lambda>u d. update_player_rating d u delta) ws db))) k =
     (if k \<in> set ws
      then map_option (\<lambda>p. if delta > 0
                            then p\<lparr>rating := rating p + of_int delta, wins := wins p + 1\<rparr>
                            else p\<lparr>rating := rating p + of_int delta, losses := losses p + 1\<rparr>)
             (map_of (players db) k)
      else if k \<in> set ls
      then map_option (\<lambda>p. if - delta > 0
                            then p\<lparr>rating := rating p + of_int (- delta), wins := wins p + 1\<rparr>
                            else p\<lparr>rating := rating p + of_int (- delta), losses := losses p + 1\<rparr>)
             (map_of (players db) k)
      else map_of (players db) k)"
proof -
  from assms have dw: "distinct ws" and dl: "distinct ls" and disj: "set ws \<inter> set ls = {}"
    by auto
  show ?thesis
    unfolding fold_update_players [OF dl] fold_update_players [OF dw]
    using disj by auto
qed

lemma total_sql_update:
  assumes "distinct (map fst tbl)" and "k \<in> fst ` set tbl" and "\<And>p. g (f p) = g p + c"
  shows "sum_list (map (\<lambda>(k, p). g p) (sql_update k f tbl))
         = sum_list (map (\<lambda>(k, p). g p) tbl) + (c :: real)"
  using assms(1,2)
proof (induction tbl)
  case Nil
  then show ?case by simp
next
  case (Cons a tbl)
  obtain k' p where a: "a = (k', p)" by (cases a)
  show ?case
  proof (cases "k' = k")
    case True
    with Cons.prems a have "k \<notin> fst ` set tbl" by auto
    then have "sql_update k f tbl = tbl"
      by (induction tbl) (auto simp: sql_update_def)
    with True a assms(3) show ?thesis by (simp add: sql_update_def)
  next
    case False
    with Cons a show ?thesis by (auto simp: sql_update_def)
  qed
qed

lemma total_update_player_rating:
  assumes "distinct (map fst (players db))" and "u \<in> fst ` set (players db)"
  shows "total_rating (update_player_rating db u d) = total_rating db + of_int d"
  unfolding total_rating_def update_player_rating_def Let_def
  using total_sql_update [OF assms, of rating _ "of_int d"] by simp

lemma keys_update_player_rating:
  "fst ` set (players (update_player_rating db u d)) = fst ` set (players db)"
  using arg_cong [OF other_tables_update_player_rating(4) [of db u d], of set] by simp

lemma total_fold_update:
  assumes "distinct (map fst (players db))" and "set us \<subseteq> fst ` set (players db)"
  shows "total_rating (fold (\<lambda>u x. update_player_rating x u d) us db)
         = total_rating db + of_int d * of_nat (length us)"
  using assms
proof (induction us arbitrary: db)
  case Nil
  then show ?case by simp
next
  case (Cons u us)
  let ?db1 = "update_player_rating db u d"
  have k: "map fst (players ?db1) = map fst (players db)"
    by (rule other_tables_update_player_rating)
  have "total_rating (fold (\<lambda>u x. update_player_rating x u d) us ?db1)
        = total_rating ?db1 + of_int d * of_nat (length us)"
    using Cons.prems by (intro Cons.IH) (simp_all add: k keys_update_player_rating)
  also have "total_rating ?db1 = total_rating db + of_int d"
    using Cons.prems by (intro total_update_player_rating) simp_all
  finally show ?case by (simp add: algebra_simps)
qed

lemma rating_change_credit:
  assumes "map_of (players db) u = Some p"
    and "map_of (players db') u =
           map_option (\<lambda>p. if c then p\<lparr>rating := rating p + d, wins := wins p + 1\<rparr>
                            else p\<lparr>rating := rating p + d, losses := losses p + 1\<rparr>)
             (map_of (players db) u)"
  shows "rating_change db db' u = d"
  using assms by (simp add: rating_change_def)

lemma sum_list_const: "(\<And>x. x \<in> set xs \<Longrightarrow> f x = (c :: real)) \<Longrightarrow> sum_list (map f xs) = c * of_nat (length xs)"
  by (induction xs) (simp_all add: algebra_simps)

text \<open>
  The rating changes of one such update of both teams, on a well-formed database: \<open>+delta\<close>
  for each winner, \<open>-delta\<close> for each loser, nothing for anybody else, and the same total.
\<close>

lemma updated_rating_changes:
  assumes inv: "db_inv db"
    and row: "map_of (pending_matches db) match_id = Some row"
    and ws: "parse_ids (winner_ids row) = Inr ws" and ls: "parse_ids (loser_ids row) = Inr ls"
    and db': "db' = fold (\<lambda>u d. update_player_rating d u (- delta)) ls
                     (fold (\<lambda>u d. update_player_rating d u delta) ws db)"
  shows "(\<forall>u \<in> set ws. rating_change db db' u = of_int delta)
       \<and> (\<forall>u \<in> set ls. rating_change db db' u = - of_int delta)
       \<and> sum_list (map (rating_change db db') ws)
           = - sum_list (map (rating_change db db') ls)
       \<and> (\<forall>u. u \<notin> set (ws @ ls) \<longrightarrow> rating_change db db' u = 0)
       \<and> total_rating db' = total_rating db"
proof -
  note teams = confirmation_teams [OF inv row ws ls]
  note pl = updated_players [OF teams(1), of delta db, folded db']
  from teams(1) have disj: "set ws \<inter> set ls = {}" by simp
  from teams(2) have len: "length ws = length ls" by auto
  have known: "\<And>u. u \<in> set (ws @ ls) \<Longrightarrow> \<exists>p. map_of (players db) u = Some p"
  proof -
    fix u assume "u \<in> set (ws @ ls)"
    with teams(3) have "u \<in> fst ` set (players db)" by blast
    then show "\<exists>p. map_of (players db) u = Some p"
      by (metis map_of_eq_None_iff not_Some_eq)
  qed
  have w: "\<forall>u \<in> set ws. rating_change db db' u = of_int delta"
  proof
    fix u assume u: "u \<in> set ws"
    with known obtain p where p: "map_of (players db) u = Some p" by auto
    show "rating_change db db' u = of_int delta"
      by (rule rating_change_credit [OF p, of db' "delta > 0"]) (simp add: pl u)
  qed
  have l: "\<forall>u \<in> set ls. rating_change db db' u = - of_int delta"
  proof
    fix u assume u: "u \<in> set ls"
    with known obtain p where p: "map_of (players db) u = Some p" by auto
    from u disj have nw: "u \<notin> set ws" by auto
    have "rating_change db db' u = of_int (- delta)"
      by (rule rating_change_credit [OF p, of db' "- delta > 0"]) (simp add: pl u nw)
    then show "rating_change db db' u = - of_int delta" by simp
  qed
  have sums: "sum_list (map (rating_change db db') ws)
                = - sum_list (map (rating_change db db') ls)"
    using sum_list_const [of ws "rating_change db db'" "of_int delta"]
      sum_list_const [of ls "rating_change db db'" "- of_int delta"] w l len
    by simp
  have others: "\<forall>u. u \<notin> set (ws @ ls) \<longrightarrow> rating_change db db' u = 0"
    by (auto simp: rating_change_def pl split: option.splits)
  have total: "total_rating db' = total_rating db"
  proof -
    let ?db1 = "fold (\<lambda>u d. update_player_rating d u delta) ws db"
    have k1: "map fst (players ?db1) = map fst (players db)"
      by (rule fold_update_other_tables)
    have t1: "total_rating ?db1 = total_rating db + of_int delta * of_nat (length ws)"
      using teams(3) by (intro total_fold_update) (simp_all add: db_inv_distinct [OF inv])
    have t2: "total_rating (fold (\<lambda>u d. update_player_rating d u (- delta)) ls ?db1)
              = total_rating ?db1 + of_int (- delta) * of_nat (length ls)"
      using teams(3)
      by (intro total_fold_update) (simp_all add: k1 keys_fold_update db_inv_distinct [OF inv])
    from t1 t2 len show ?thesis by (simp add: db')
  qed
  from w l sums others total show ?thesis by blast
qed

lemma rating_change_same: "rating_change db db u = 0"
  by (simp add: rating_change_def split: option.splits)

section \<open>A confirmation and the job, one after the other\<close>

text \<open>
  A confirmation leaves the pending row where it is, so the job that runs after it still
  finds the match pending and announces its expiry. A confirmation after the job is
  answered "already processed".
\<close>

lemma job_after_confirmation:
  assumes "get_pending_match db match_id = Some pending_match_data"
  shows "delete_pending_match_job
           (database_after (process_match_confirmation db match_id uid now))
           match_id chat orig
         = ([PendingExpired chat match_id orig],
            delete_pending_match
              (database_after (process_match_confirmation db match_id uid now)) match_id)"
  using assms
  by (simp add: delete_pending_match_job_def get_pending_match_def
        confirmation_keeps_other_tables)

lemma confirmation_after_job:
  assumes "delete_pending_match_job db match_id chat orig = (sent, db')"
  shows "process_match_confirmation db' match_id uid now = Inr (AlreadyProcessed, db')"
proof -
  have "get_pending_match db' match_id = None"
    using assms
    by (auto simp: delete_pending_match_job_def delete_pending_match_def get_pending_match_def
          map_of_sql_delete split: option.splits)
  then show ?thesis by (simp add: process_match_confirmation_def)
qed

section \<open>The example databases, evaluated\<close>

lemma parse_ids_examples:
  "parse_ids ''1'' = Inr [1]" "parse_ids ''2'' = Inr [2]"
  "parse_ids ''1,2'' = Inr [1, 2]" "parse_ids ''3,4'' = Inr [3, 4]"
  by code_simp+

lemma ids_str_examples:
  "ids_str [1] = ''1''" "ids_str [2] = ''2''" "ids_str [1, 2] = ''1,2''"
  "ids_str [3, 4] = ''3,4''" "ids_str [1, 2, 3, 4] = ''1,2,3,4''"
  by code_simp+

lemma next_rowid_single: "next_rowid [(k, r)] = k + 1"
  by (simp add: next_rowid_def)

lemma ids_str_more_examples:
  "ids_str [1, 3] = ''1,3''" "ids_str [1, 2, 1, 3] = ''1,2,1,3''" "ids_str [3] = ''3''"
  "ids_str [4] = ''4''"
  by code_simp+

lemma py_round_of_int: "py_round (of_int n) = n"
  by (simp add: py_round_def)

lemma py_round_numerals: "py_round 1000 = 1000" "py_round 1001 = 1001" "py_round 3000 = 3000"
  using py_round_of_int [of 1000] py_round_of_int [of 1001] py_round_of_int [of 3000]
  by simp_all

lemma calculate_elo_change_equal: "calculate_elo_change 1000 1000 = Inr 8"
proof -
  have "delta_r 1000 1000 = Inr (15 / 2)"
    by (simp add: delta_r_def expected_score_winner_def py_pow10_zero calculate_k_factor_def)
  moreover have "py_round (15 / 2) = 8"
    using py_round_half_even [of 8] by simp
  ultimately show ?thesis by (simp add: calculate_elo_change_def)
qed

lemma py_trunc_examples: "py_trunc 1000 = 1000" "py_trunc (2001 / 2) = 1000" "py_trunc 3000 = 3000"
  by (simp_all add: py_trunc_def)

lemma db_inv_example_pending_db: "db_inv example_pending_db"
  by (simp add: db_inv_def pending_row_ok_def example_pending_db_def parse_ids_examples)

lemma db_inv_doubles_db: "db_inv (doubles_db r)"
  by (simp add: db_inv_def pending_row_ok_def doubles_db_def parse_ids_examples)

lemma db_inv_mismatch_db: "db_inv mismatch_db"
  by (simp add: db_inv_def pending_row_ok_def mismatch_db_def parse_ids_examples)

lemma ratings_in_range_examples:
  "ratings_in_range example_pending_db" "ratings_in_range (doubles_db 1000)"
  "ratings_in_range (doubles_db 1001)" "ratings_in_range mismatch_db"
  by (simp_all add: ratings_in_range_def example_pending_db_def doubles_db_def mismatch_db_def)

lemma averages_example_pending_db:
  "average (map (get_player_rating example_pending_db) [1]) = Inr 1000"
  "average (map (get_player_rating example_pending_db) [2]) = Inr 1000"
  by (simp_all add: average_def get_player_rating_def example_pending_db_def py_round_numerals)

lemma confirm_example_pending_db:
  "process_match_confirmation example_pending_db 1 1 9 =
     Inl (OperationalError, example_moved_db)"
proof -
  let ?row = "\<lparr>match_type = ''1vs1'', participants = ''1,2'', winner_ids = ''1'',
               loser_ids = ''2'', score = ''11-9'', timestamp = 0\<rparr>"
  have row: "map_of (pending_matches example_pending_db) 1 = Some ?row"
    by (simp add: example_pending_db_def)
  have ws: "parse_ids (winner_ids ?row) = Inr [1]" and ls: "parse_ids (loser_ids ?row) = Inr [2]"
    by (simp_all add: parse_ids_examples)
  have d: "calculate_elo_change (py_trunc 1000) (py_trunc 1000) = Inr 8"
    by (simp add: py_trunc_examples calculate_elo_change_equal)
  have "process_match_confirmation example_pending_db 1 1 9 =
          Inl (OperationalError,
               fold (\<lambda>u d. update_player_rating d u (- 8)) [2]
                 (fold (\<lambda>u d. update_player_rating d u 8) [1] example_pending_db))"
    by (rule confirmation_eval [OF row ws ls _ averages_example_pending_db d]) simp
  also have "fold (\<lambda>u d. update_player_rating d u (- 8)) [2]
                 (fold (\<lambda>u d. update_player_rating d u 8) [1] example_pending_db)
             = example_moved_db"
    by (simp add: update_player_rating_def sql_update_def Let_def
          example_pending_db_def example_moved_db_def)
  finally show ?thesis .
qed

lemma averages_doubles_db:
  assumes "r = 1000 \<or> r = 1001"
  shows "average (map (get_player_rating (doubles_db r)) [1, 2]) = Inr ((r + 1000) / 2)"
    and "average (map (get_player_rating (doubles_db r)) [3, 4]) = Inr 1000"
    and "py_trunc ((r + 1000) / 2) = 1000"
  using assms
  by (auto simp: average_def get_player_rating_def doubles_db_def py_round_numerals
        py_trunc_def)

lemma confirm_doubles_db:
  assumes "r = 1000 \<or> r = 1001" and "uid \<in> {1, 2, 3, 4}"
  shows "process_match_confirmation (doubles_db r) 1 uid 9 =
           Inl (OperationalError, doubles_moved_db r)"
proof -
  let ?row = "\<lparr>match_type = ''2vs2'', participants = ''1,2,3,4'', winner_ids = ''1,2'',
               loser_ids = ''3,4'', score = ''11-9'', timestamp = 0\<rparr>"
  have row: "map_of (pending_matches (doubles_db r)) 1 = Some ?row"
    by (simp add: doubles_db_def)
  have ws: "parse_ids (winner_ids ?row) = Inr [1, 2]"
    and ls: "parse_ids (loser_ids ?row) = Inr [3, 4]"
    by (simp_all add: parse_ids_examples)
  have part: "uid \<in> set ([1, 2] @ [3, 4])" using assms(2) by auto
  note av = averages_doubles_db [OF assms(1)]
  have d: "calculate_elo_change (py_trunc ((r + 1000) / 2)) (py_trunc 1000) = Inr 8"
    by (simp add: av(3) py_trunc_examples calculate_elo_change_equal)
  have "process_match_confirmation (doubles_db r) 1 uid 9 =
          Inl (OperationalError,
               fold (\<lambda>u d. update_player_rating d u (- 8)) [3, 4]
                 (fold (\<lambda>u d. update_player_rating d u 8) [1, 2] (doubles_db r)))"
    by (rule confirmation_eval [OF row ws ls part av(1) av(2) d])
  also have "fold (\<lambda>u d. update_player_rating d u (- 8)) [3, 4]
                 (fold (\<lambda>u d. update_player_rating d u 8) [1, 2] (doubles_db r))
             = doubles_moved_db r"
    by (simp add: update_player_rating_def sql_update_def Let_def
          doubles_db_def doubles_moved_db_def)
  finally show ?thesis .
qed

lemma averages_mismatch_db:
  "average (map (get_player_rating mismatch_db) [1]) = Inr 3000"
  "average (map (get_player_rating mismatch_db) [2]) = Inr 1000"
  by (simp_all add: average_def get_player_rating_def mismatch_db_def py_round_numerals)

lemma confirm_mismatch_db:
  "process_match_confirmation mismatch_db 1 2 9 = Inl (OperationalError, mismatch_moved_db)"
proof -
  let ?row = "\<lparr>match_type = ''1vs1'', participants = ''1,2'', winner_ids = ''1'',
               loser_ids = ''2'', score = ''11-0'', timestamp = 0\<rparr>"
  have row: "map_of (pending_matches mismatch_db) 1 = Some ?row"
    by (simp add: mismatch_db_def)
  have ws: "parse_ids (winner_ids ?row) = Inr [1]" and ls: "parse_ids (loser_ids ?row) = Inr [2]"
    by (simp_all add: parse_ids_examples)
  have d: "calculate_elo_change (py_trunc 3000) (py_trunc 1000) = Inr 0"
    by (simp add: py_trunc_examples calculate_elo_change_3000_1000)
  have "process_match_confirmation mismatch_db 1 2 9 =
          Inl (OperationalError,
               fold (\<lambda>u d. update_player_rating d u (- 0)) [2]
                 (fold (\<lambda>u d. update_player_rating d u 0) [1] mismatch_db))"
    by (rule confirmation_eval [OF row ws ls _ averages_mismatch_db d]) simp
  also have "fold (\<lambda>u d. update_player_rating d u (- 0)) [2]
                 (fold (\<lambda>u d. update_player_rating d u 0) [1] mismatch_db)
             = mismatch_moved_db"
    by (simp add: update_player_rating_def sql_update_def Let_def
          mismatch_db_def mismatch_moved_db_def)
  finally show ?thesis .
qed

section \<open>Ratings in range\<close>

text \<open>
  On a database whose ratings are in range the rating engine returns: the lookups are
  between -3000 and 3000, so are the team means and what \<open>int(...)\<close> makes of them, and
  the power of ten is far from the overflow.
\<close>

lemma py_pow10_returns:
  assumes "x \<le> 15"
  shows "py_pow10 x = Inr (10 powr x)"
proof -
  have "(10 :: real) powr x \<le> 10 powr 15"
    using assms by (intro powr_mono) simp_all
  also have "(10 :: real) powr 15 = 10 ^ 15"
    using powr_realpow [of "10 :: real" 15] by simp
  also have "(10 :: real) ^ 15 < 2 ^ 1024" by simp
  finally show ?thesis by (simp add: py_pow10_def)
qed

lemma calculate_elo_change_returns:
  assumes "rating_loser - rating_winner \<le> 6000"
  shows "\<exists>delta. calculate_elo_change rating_winner rating_loser = Inr delta"
proof -
  have "(of_int (rating_loser - rating_winner) :: real) \<le> 6000"
    using assms by (metis of_int_le_iff of_int_numeral)
  then have "(of_int (rating_loser - rating_winner) :: real) / 400 \<le> 15" by simp
  then show ?thesis
    by (simp add: calculate_elo_change_def delta_r_def expected_score_winner_def
          py_pow10_returns)
qed

lemma get_player_rating_in_range:
  assumes "ratings_in_range db"
  shows "\<bar>get_player_rating db u\<bar> \<le> 3000"
proof (cases "map_of (players db) u")
  case None
  then show ?thesis by (simp add: get_player_rating_def DEFAULT_RATING_def)
next
  case (Some p)
  then have "(u, p) \<in> set (players db)" by (rule map_of_SomeD)
  with assms have i: "rating p = of_int \<lfloor>rating p\<rfloor>" and b: "\<bar>rating p\<bar> \<le> 3000"
    by (auto simp: ratings_in_range_def list_all_iff)
  from i have "py_round (rating p) = \<lfloor>rating p\<rfloor>"
    by (metis py_round_of_int)
  moreover from b have "\<bar>\<lfloor>rating p\<rfloor>\<bar> \<le> 3000" by linarith
  ultimately show ?thesis using Some by (simp add: get_player_rating_def)
qed

lemma sum_list_in_range:
  assumes "\<forall>x \<in> set xs. \<bar>x\<bar> \<le> (3000 :: int)"
  shows "\<bar>sum_list xs\<bar> \<le> 3000 * int (length xs)"
  using assms by (induction xs) auto

lemma average_in_range:
  assumes "xs \<noteq> []" and "\<forall>x \<in> set xs. \<bar>x\<bar> \<le> 3000"
  shows "\<exists>m. average xs = Inr m \<and> \<bar>py_trunc m\<bar> \<le> 3000"
proof -
  define n where "n = int (length xs)"
  from assms(1) have n: "0 < n" by (simp add: n_def)
  define m :: real where "m = of_int (sum_list xs) / of_int n"
  from sum_list_in_range [OF assms(2)] have "\<bar>sum_list xs\<bar> \<le> 3000 * n" by (simp add: n_def)
  then have "\<bar>of_int (sum_list xs) :: real\<bar> \<le> 3000 * of_int n"
    by (metis of_int_abs of_int_le_iff of_int_mult of_int_numeral)
  with n have m: "\<bar>m\<bar> \<le> 3000"
    by (simp add: m_def field_simps abs_le_iff)
  have "\<bar>py_trunc m\<bar> \<le> 3000"
  proof (cases "0 \<le> m")
    case True
    with m have "0 \<le> \<lfloor>m\<rfloor>" and "\<lfloor>m\<rfloor> \<le> 3000" by linarith+
    moreover from True have "py_trunc m = \<lfloor>m\<rfloor>" by (simp add: py_trunc_def)
    ultimately show ?thesis by linarith
  next
    case False
    with m have "\<lceil>m\<rceil> \<le> 0" and "- 3000 \<le> \<lceil>m\<rceil>" by linarith+
    moreover from False have "py_trunc m = \<lceil>m\<rceil>" by (simp add: py_trunc_def)
    ultimately show ?thesis by linarith
  qed
  moreover have "average xs = Inr m"
    using assms(1) by (simp add: average_def m_def n_def)
  ultimately show ?thesis by blast
qed

text \<open>
  So, on a well-formed database with ratings in range, a participant who presses the
  button always gets as far as the rating updates.
\<close>

lemma confirmation_applies:
  assumes inv: "db_inv db" and rng: "ratings_in_range db"
    and row: "map_of (pending_matches db) match_id = Some row"
    and ws: "parse_ids (winner_ids row) = Inr ws" and ls: "parse_ids (loser_ids row) = Inr ls"
    and part: "uid \<in> set (ws @ ls)"
  shows "\<exists>aw al delta.
           average (map (get_player_rating db) ws) = Inr aw
         \<and> average (map (get_player_rating db) ls) = Inr al
         \<and> calculate_elo_change (py_trunc aw) (py_trunc al) = Inr delta
         \<and> process_match_confirmation db match_id uid now =
             Inl (OperationalError,
                  fold (\<lambda>u d. update_player_rating d u (- delta)) ls
                    (fold (\<lambda>u d. update_player_rating d u delta) ws db))"
proof -
  from confirmation_teams(2) [OF inv row ws ls] have ne: "ws \<noteq> []" "ls \<noteq> []" by auto
  from ne(1) get_player_rating_in_range [OF rng]
  obtain aw where aw: "average (map (get_player_rating db) ws) = Inr aw"
    and baw: "\<bar>py_trunc aw\<bar> \<le> 3000"
    using average_in_range [of "map (get_player_rating db) ws"] by auto
  from ne(2) get_player_rating_in_range [OF rng]
  obtain al where al: "average (map (get_player_rating db) ls) = Inr al"
    and bal: "\<bar>py_trunc al\<bar> \<le> 3000"
    using average_in_range [of "map (get_player_rating db) ls"] by auto
  from baw bal have "py_trunc al - py_trunc aw \<le> 6000" by linarith
  then obtain delta where d: "calculate_elo_change (py_trunc aw) (py_trunc al) = Inr delta"
    using calculate_elo_change_returns by blast
  from confirmation_eval [OF row ws ls part aw al d, of now] aw al d
  show ?thesis by blast
qed

lemma pending_row_of:
  assumes "get_pending_match db match_id = Some (mt, winner_ids_str, loser_ids_str, sc)"
  obtains row :: pending_row where "map_of (pending_matches db) match_id = Some row"
    and "match_type row = mt" and "winner_ids row = winner_ids_str"
    and "loser_ids row = loser_ids_str" and "score row = sc"
  using assms by (auto simp: get_pending_match_def split: option.splits)

lemma two_element_list: "length xs = 2 \<Longrightarrow> \<exists>a b. xs = [a, b]"
  by (auto simp: length_Suc_conv numeral_2_eq_2)

section \<open>The properties of the specification\<close>

text \<open>
  C1: a confirmation and the expiry job on one pending match do not end in exactly one of
  "finalized" and "expired". On the example database player 1 presses the button on match
  1: the ratings move by 8 and are committed, then \<open>finalize_match\<close> raises
  \<open>OperationalError\<close>, so the handler reports nothing, the pending row is still there and
  the history is empty: the match is neither finalized nor expired. When the job runs
  after that, it finds the match pending, announces its expiry and removes the row: the
  match whose ratings have moved is expired.
\<close>

theorem confirmation_then_expiry_on_example:
  "process_match_confirmation example_pending_db 1 1 9 =
     Inl (OperationalError, example_moved_db)
   \<and> get_pending_match example_moved_db 1 = Some (''1vs1'', ''1'', ''2'', ''11-9'')
   \<and> matches example_moved_db = []
   \<and> rating_change example_pending_db example_moved_db 1 = 8
   \<and> rating_change example_pending_db example_moved_db 2 = - 8
   \<and> delete_pending_match_job example_moved_db 1 100 5 =
       ([PendingExpired 100 1 5], example_moved_db\<lparr>pending_matches := []\<rparr>)
   \<and> players (example_moved_db\<lparr>pending_matches := []\<rparr>) = players example_moved_db"
proof -
  have g: "get_pending_match example_moved_db 1 = Some (''1vs1'', ''1'', ''2'', ''11-9'')"
    by (simp add: get_pending_match_def example_moved_db_def)
  have j: "delete_pending_match_job example_moved_db 1 100 5 =
       ([PendingExpired 100 1 5], example_moved_db\<lparr>pending_matches := []\<rparr>)"
    unfolding delete_pending_match_job_def g
    by (simp add: delete_pending_match_def sql_delete_def example_moved_db_def)
  have r: "rating_change example_pending_db example_moved_db 1 = 8"
    "rating_change example_pending_db example_moved_db 2 = - 8"
    by (simp_all add: rating_change_def example_pending_db_def example_moved_db_def)
  have m: "matches example_moved_db = []" by (simp add: example_moved_db_def)
  from confirm_example_pending_db g m r j show ?thesis by simp
qed

text \<open>
  C2, as the code has it: on a well-formed database with ratings in range, when a
  participant confirms a doubles match, one delta is computed, from the two team means cut
  down to integers: each mean is taken over the two members' rounded ratings
  (\<open>get_player_rating\<close>) and passed through \<open>int(...)\<close>, which drops the half of a mean
  like 1000.5. That delta is added to the stored rating of both winners and subtracted
  from the stored rating of both losers. The handler then ends in the \<open>OperationalError\<close>
  of \<open>finalize_match\<close>, with these rating changes committed.
\<close>

theorem doubles_confirmation_uses_truncated_means:
  assumes "db_inv db" and "ratings_in_range db"
    and "get_pending_match db match_id = Some (''2vs2'', winner_ids_str, loser_ids_str, sc)"
    and "parse_ids winner_ids_str = Inr ws"
    and "parse_ids loser_ids_str = Inr ls"
    and "user_id \<in> set (ws @ ls)"
  shows "\<exists>w1 w2 l1 l2 delta db'.
           ws = [w1, w2] \<and> ls = [l1, l2]
         \<and> calculate_elo_change
             (py_trunc ((of_int (get_player_rating db w1)
                         + of_int (get_player_rating db w2)) / 2))
             (py_trunc ((of_int (get_player_rating db l1)
                         + of_int (get_player_rating db l2)) / 2))
           = Inr delta
         \<and> process_match_confirmation db match_id user_id now = Inl (OperationalError, db')
         \<and> rating_change db db' w1 = of_int delta
         \<and> rating_change db db' w2 = of_int delta
         \<and> rating_change db db' l1 = - of_int delta
         \<and> rating_change db db' l2 = - of_int delta"
proof -
  from assms(3) obtain row :: pending_row
    where row: "map_of (pending_matches db) match_id = Some row"
      and mt: "match_type row = ''2vs2''"
      and wr: "winner_ids row = winner_ids_str" and lr: "loser_ids row = loser_ids_str"
    by (rule pending_row_of)
  from assms(4,5) wr lr have ws: "parse_ids (winner_ids row) = Inr ws"
    and ls: "parse_ids (loser_ids row) = Inr ls" by simp_all
  from confirmation_applies [OF assms(1,2) row ws ls assms(6), of now]
  obtain aw al delta where aw: "average (map (get_player_rating db) ws) = Inr aw"
    and al: "average (map (get_player_rating db) ls) = Inr al"
    and d: "calculate_elo_change (py_trunc aw) (py_trunc al) = Inr delta"
    and run: "process_match_confirmation db match_id user_id now =
             Inl (OperationalError,
                  fold (\<lambda>u d. update_player_rating d u (- delta)) ls
                    (fold (\<lambda>u d. update_player_rating d u delta) ws db))"
    by blast
  define db' where "db' = fold (\<lambda>u d. update_player_rating d u (- delta)) ls
                    (fold (\<lambda>u d. update_player_rating d u delta) ws db)"
  from confirmation_teams(2) [OF assms(1) row ws ls] mt
  have "length ws = 2" and "length ls = 2" by auto
  then obtain w1 w2 l1 l2 where wl: "ws = [w1, w2]" "ls = [l1, l2]"
    using two_element_list by metis
  from aw wl have aw': "aw = (of_int (get_player_rating db w1)
                              + of_int (get_player_rating db w2)) / 2"
    by (simp add: average_def)
  from al wl have al': "al = (of_int (get_player_rating db l1)
                              + of_int (get_player_rating db l2)) / 2"
    by (simp add: average_def)
  from updated_rating_changes [OF assms(1) row ws ls db'_def] wl
  have ch: "rating_change db db' w1 = of_int delta" "rating_change db db' w2 = of_int delta"
    "rating_change db db' l1 = - of_int delta" "rating_change db db' l2 = - of_int delta"
    by simp_all
  from wl d [unfolded aw' al'] run [folded db'_def] ch show ?thesis by blast
qed

theorem doubles_confirmation_uses_truncated_means_witness:
  "db_inv (doubles_db 1000) \<and> ratings_in_range (doubles_db 1000)
   \<and> get_pending_match (doubles_db 1000) 1 = Some (''2vs2'', ''1,2'', ''3,4'', ''11-9'')
   \<and> parse_ids ''1,2'' = Inr [1, 2] \<and> parse_ids ''3,4'' = Inr [3, 4]
   \<and> (3 :: int) \<in> set ([1, 2] @ [3, 4])
   \<and> process_match_confirmation (doubles_db 1000) 1 3 9 =
       Inl (OperationalError, doubles_moved_db 1000)
   \<and> (\<exists>w1 w2 l1 l2 delta.
         [1, 2] = [w1, w2] \<and> [3, 4] = [l1, l2]
       \<and> calculate_elo_change
           (py_trunc ((of_int (get_player_rating (doubles_db 1000) w1)
                       + of_int (get_player_rating (doubles_db 1000) w2)) / 2))
           (py_trunc ((of_int (get_player_rating (doubles_db 1000) l1)
                       + of_int (get_player_rating (doubles_db 1000) l2)) / 2))
         = Inr delta
       \<and> rating_change (doubles_db 1000) (doubles_moved_db 1000) w1 = of_int delta
       \<and> rating_change (doubles_db 1000) (doubles_moved_db 1000) w2 = of_int delta
       \<and> rating_change (doubles_db 1000) (doubles_moved_db 1000) l1 = - of_int delta
       \<and> rating_change (doubles_db 1000) (doubles_moved_db 1000) l2 = - of_int delta)"
proof -
  have g: "get_pending_match (doubles_db 1000) 1 = Some (''2vs2'', ''1,2'', ''3,4'', ''11-9'')"
    by (simp add: get_pending_match_def doubles_db_def)
  have p: "(3 :: int) \<in> set ([1, 2] @ [3, 4])" by simp
  have run: "process_match_confirmation (doubles_db 1000) 1 3 9 =
       Inl (OperationalError, doubles_moved_db 1000)"
    by (rule confirm_doubles_db) simp_all
  from doubles_confirmation_uses_truncated_means
         [OF db_inv_doubles_db ratings_in_range_examples(2) g
             parse_ids_examples(3) parse_ids_examples(4) p, of 9]
  show ?thesis
    using db_inv_doubles_db [of 1000] ratings_in_range_examples(2) g parse_ids_examples p
    by (simp add: run)
qed

text \<open>
  The claim of C2 fails when a team mean is not an integer. With the winners rated 1001
  and 1000 and the losers 1000 and 1000, the exact means are 1000.5 and 1000, for which the
  formula gives 7; the code cuts 1000.5 down to 1000, meets the tie at 7.5 and adds 8 to
  the winners' ratings.
\<close>

theorem exact_mean_counterexample:
  "db_inv (doubles_db 1001) \<and> ratings_in_range (doubles_db 1001)
   \<and> process_match_confirmation (doubles_db 1001) 1 1 9 =
       Inl (OperationalError, doubles_moved_db 1001)
   \<and> rating_change (doubles_db 1001) (doubles_moved_db 1001) 1 = 8
   \<and> rating_change (doubles_db 1001) (doubles_moved_db 1001) 2 = 8
   \<and> rating_change (doubles_db 1001) (doubles_moved_db 1001) 3 = - 8
   \<and> rating_change (doubles_db 1001) (doubles_moved_db 1001) 4 = - 8
   \<and> spec_computeDelta ((1001 + 1000) / 2) ((1000 + 1000) / 2) = 7
   \<and> py_trunc ((1001 + 1000) / 2) = 1000"
proof -
  have "process_match_confirmation (doubles_db 1001) 1 1 9 =
          Inl (OperationalError, doubles_moved_db 1001)"
    by (rule confirm_doubles_db) simp_all
  moreover have "rating_change (doubles_db 1001) (doubles_moved_db 1001) 1 = 8"
    "rating_change (doubles_db 1001) (doubles_moved_db 1001) 2 = 8"
    "rating_change (doubles_db 1001) (doubles_moved_db 1001) 3 = - 8"
    "rating_change (doubles_db 1001) (doubles_moved_db 1001) 4 = - 8"
    by (simp_all add: rating_change_def doubles_db_def doubles_moved_db_def)
  moreover have "spec_computeDelta ((1001 + 1000) / 2) ((1000 + 1000) / 2) = 7"
    using spec_computeDelta_half_point by simp
  moreover have "py_trunc ((1001 + 1000) / 2) = 1000"
    using py_trunc_examples(2) by simp
  ultimately show ?thesis
    using db_inv_doubles_db [of 1001] ratings_in_range_examples(3) by simp
qed

text \<open>
  C3: \<open>calculate_elo_change 1000 1000\<close> is 8: the K-factor is 15, the expected score of
  the winner is 1/2, the raw delta is 7.5, and the tie between 7 and 8 goes to the even 8.
\<close>

theorem calculate_elo_change_1000_1000:
  "calculate_k_factor 1000 1000 = 15
   \<and> expected_score_winner 1000 1000 = Inr (1 / 2)
   \<and> delta_r 1000 1000 = Inr (15 / 2)
   \<and> py_round (15 / 2) = 8
   \<and> calculate_elo_change 1000 1000 = Inr 8"
proof -
  have k: "calculate_k_factor 1000 1000 = 15"
    by (simp add: calculate_k_factor_def)
  have e: "expected_score_winner 1000 1000 = Inr (1 / 2)"
    by (simp add: expected_score_winner_def py_pow10_zero)
  have d: "delta_r 1000 1000 = Inr (15 / 2)"
    by (simp add: delta_r_def e k)
  have r: "py_round (15 / 2) = 8"
    using py_round_half_even [of 8] by simp
  have c: "calculate_elo_change 1000 1000 = Inr 8"
    by (simp add: calculate_elo_change_def d r)
  from k e d r c show ?thesis by simp
qed

text \<open>
  C4: a confirmation is zero-sum. On a well-formed database with ratings in range, when a
  participant confirms a pending match, there is one \<open>delta\<close> such that the stored rating
  of each winner changes by \<open>+delta\<close> and of each loser by \<open>-delta\<close>; the changes of the
  winners add up to minus the changes of the losers; no other player's rating moves; and
  the sum of all stored ratings is what it was. These are the changes the handler has
  committed when it ends in the \<open>OperationalError\<close> of \<open>finalize_match\<close>.
\<close>

theorem confirmation_is_zero_sum:
  assumes "db_inv db" and "ratings_in_range db"
    and "get_pending_match db match_id = Some (mt, winner_ids_str, loser_ids_str, sc)"
    and "parse_ids winner_ids_str = Inr ws"
    and "parse_ids loser_ids_str = Inr ls"
    and "user_id \<in> set (ws @ ls)"
  shows "\<exists>delta db'.
           process_match_confirmation db match_id user_id now = Inl (OperationalError, db')
         \<and> (\<forall>u \<in> set ws. rating_change db db' u = of_int delta)
         \<and> (\<forall>u \<in> set ls. rating_change db db' u = - of_int delta)
         \<and> sum_list (map (rating_change db db') ws)
             = - sum_list (map (rating_change db db') ls)
         \<and> (\<forall>u. u \<notin> set (ws @ ls) \<longrightarrow> rating_change db db' u = 0)
         \<and> total_rating db' = total_rating db"
proof -
  from assms(3) obtain row :: pending_row
    where row: "map_of (pending_matches db) match_id = Some row"
      and wr: "winner_ids row = winner_ids_str" and lr: "loser_ids row = loser_ids_str"
    by (rule pending_row_of)
  from assms(4,5) wr lr have ws: "parse_ids (winner_ids row) = Inr ws"
    and ls: "parse_ids (loser_ids row) = Inr ls" by simp_all
  from confirmation_applies [OF assms(1,2) row ws ls assms(6), of now]
  obtain delta where run: "process_match_confirmation db match_id user_id now =
             Inl (OperationalError,
                  fold (\<lambda>u d. update_player_rating d u (- delta)) ls
                    (fold (\<lambda>u d. update_player_rating d u delta) ws db))"
    by blast
  define db' where "db' = fold (\<lambda>u d. update_player_rating d u (- delta)) ls
                    (fold (\<lambda>u d. update_player_rating d u delta) ws db)"
  from updated_rating_changes [OF assms(1) row ws ls db'_def] run [folded db'_def]
  show ?thesis by blast
qed

theorem confirmation_is_zero_sum_witness:
  "db_inv example_pending_db \<and> ratings_in_range example_pending_db
   \<and> get_pending_match example_pending_db 1 = Some (''1vs1'', ''1'', ''2'', ''11-9'')
   \<and> parse_ids ''1'' = Inr [1] \<and> parse_ids ''2'' = Inr [2]
   \<and> (1 :: int) \<in> set ([1] @ [2])
   \<and> process_match_confirmation example_pending_db 1 1 9 =
       Inl (OperationalError, example_moved_db)
   \<and> (\<exists>delta.
         rating_change example_pending_db example_moved_db 1 = of_int delta
       \<and> rating_change example_pending_db example_moved_db 2 = - of_int delta
       \<and> rating_change example_pending_db example_moved_db 3 = 0
       \<and> total_rating example_moved_db = total_rating example_pending_db)"
proof -
  have g: "get_pending_match example_pending_db 1 = Some (''1vs1'', ''1'', ''2'', ''11-9'')"
    by (simp add: get_pending_match_def example_pending_db_def)
  have p: "(1 :: int) \<in> set ([1] @ [2])" by simp
  from confirmation_is_zero_sum
         [OF db_inv_example_pending_db ratings_in_range_examples(1) g
             parse_ids_examples(1) parse_ids_examples(2) p, of 9]
  show ?thesis
    using db_inv_example_pending_db ratings_in_range_examples(1) g parse_ids_examples p
    by (simp add: confirm_example_pending_db) force
qed

text \<open>
  C5, as the code has it: the check is in \<open>handle_new_result_command\<close>, not in
  \<open>add_pending_match\<close>. A report in a group chat with the right number of tags, all of them
  known, whose winner and loser ids have an id twice, is answered with the "participants
  must be unique" message; the database and the scheduler are left as they were. The one
  thing the handler has written by then is \<open>TARGET_CHAT_ID\<close>, if it was still 0.
\<close>

theorem duplicate_participants_rejected:
  assumes "chat_type msg = ''group'' \<or> chat_type msg = ''supergroup''"
    and "4 \<le> length (text_parts msg)"
    and "mt = command_match_type (text_parts msg)"
    and "mt = ''1vs1'' \<and> length (command_tags (text_parts msg)) = 2
         \<or> mt = ''2vs2'' \<and> length (command_tags (text_parts msg)) = 4"
    and "those (map (get_user_id_by_tag (bot_db s)) (command_tags (text_parts msg))) = Some ids"
    and "\<not> distinct (team_winner_ids mt ids @ team_loser_ids mt ids)"
  shows "handle_new_result_command s msg t_db t_job =
           (Inr ParticipantsNotUnique,
            if TARGET_CHAT_ID s = 0 then s\<lparr>TARGET_CHAT_ID := chat_id msg\<rparr> else s)"
proof -
  define s1 where "s1 = (if TARGET_CHAT_ID s = 0 then s\<lparr>TARGET_CHAT_ID := chat_id msg\<rparr> else s)"
  have db1: "bot_db s1 = bot_db s" by (simp add: s1_def)
  have dup: "length (remdups (team_winner_ids mt ids @ team_loser_ids mt ids))
             \<noteq> length (team_winner_ids mt ids @ team_loser_ids mt ids)"
    using assms(6) by (metis distinct_if_no_duplicates)
  have "handle_new_result_command s msg t_db t_job = (Inr ParticipantsNotUnique, s1)"
    unfolding handle_new_result_command_def Let_def s1_def [symmetric] assms(3) [symmetric]
    using assms(1,2,4,5) dup by (auto simp: db1)
  then show ?thesis by (simp add: s1_def)
qed

theorem duplicate_participants_rejected_witness:
  "handle_new_result_command example_state example_report 0 0 =
     (Inr ParticipantsNotUnique, example_state\<lparr>TARGET_CHAT_ID := 100\<rparr>)
   \<and> those (map (get_user_id_by_tag (bot_db example_state)) (command_tags (text_parts example_report)))
       = Some [1, 2, 1, 2]
   \<and> \<not> distinct (team_winner_ids ''2vs2'' [1, 2, 1, 2] @ team_loser_ids ''2vs2'' [1, 2, 1, 2])"
proof -
  have parts: "text_parts example_report =
      [''/new_result_2vs2'', ''@ann'', ''@bob'', ''@ann'', ''@bob'', ''11-9'']"
    and chat: "chat_type example_report = ''group''" "chat_id example_report = 100"
    by (simp_all add: example_report_def)
  have mt: "''2vs2'' = command_match_type (text_parts example_report)"
    unfolding parts by code_simp
  have tags: "command_tags (text_parts example_report) = [''ann'', ''bob'', ''ann'', ''bob'']"
    unfolding parts by (simp add: command_tags_def)
  have ids: "those (map (get_user_id_by_tag (bot_db example_state))
               (command_tags (text_parts example_report))) = Some [1, 2, 1, 2]"
    unfolding tags
    by (simp add: get_user_id_by_tag_def example_state_def example_pending_db_def)
  have dup: "\<not> distinct (team_winner_ids ''2vs2'' [1, 2, 1, 2] @ team_loser_ids ''2vs2'' [1, 2, 1, 2])"
    by (simp add: team_winner_ids_def team_loser_ids_def)
  have len: "''2vs2'' = ''1vs1'' \<and> length (command_tags (text_parts example_report)) = 2
         \<or> ''2vs2'' = ''2vs2'' \<and> length (command_tags (text_parts example_report)) = 4"
    by (simp add: tags)
  have four: "4 \<le> length (text_parts example_report)" by (simp add: parts)
  have grp: "chat_type example_report = ''group'' \<or> chat_type example_report = ''supergroup''"
    by (simp add: chat)
  from duplicate_participants_rejected [OF grp four mt len ids dup, of 0 0] ids dup
  show ?thesis by (simp add: example_state_def chat)
qed

text \<open>
  The claim of C5 fails for \<open>add_pending_match\<close>, which checks nothing: called with player 1
  among the winners and among the losers, it stores the row and returns its id.
\<close>

theorem add_pending_match_unchecked_counterexample:
  "add_pending_match empty_db ''2vs2'' [1, 2, 1, 3] [1, 2] [1, 3] ''11-9'' 0 =
     (1, empty_db\<lparr>pending_matches :=
           [(1, \<lparr>match_type = ''2vs2'', participants = ''1,2,1,3'', winner_ids = ''1,2'',
                  loser_ids = ''1,3'', score = ''11-9'', timestamp = 0\<rparr>)]\<rparr>)
   \<and> get_pending_match
         (snd (add_pending_match empty_db ''2vs2'' [1, 2, 1, 3] [1, 2] [1, 3] ''11-9'' 0)) 1
       = Some (''2vs2'', ''1,2'', ''1,3'', ''11-9'')"
  by (simp add: add_pending_match_def Let_def ids_str_examples ids_str_more_examples
        next_rowid_def empty_db_def get_pending_match_def)

text \<open>
  C6, as the code has it: a rating lookup for an id with no row in \<open>players\<close> does not
  fail; it returns the default rating, 1000.
\<close>

theorem rating_of_unknown_player_is_default:
  assumes "map_of (players db) user_id = None"
  shows "get_player_rating db user_id = 1000"
  using assms by (simp add: get_player_rating_def DEFAULT_RATING_def)

theorem rating_of_unknown_player_is_default_witness:
  "map_of (players example_pending_db) 3 = None \<and> get_player_rating example_pending_db 3 = 1000"
proof -
  have n: "map_of (players example_pending_db) 3 = None"
    by (simp add: example_pending_db_def)
  from rating_of_unknown_player_is_default [OF n] n show ?thesis by simp
qed

text \<open>
  The claim of C6 fails on the empty database: player 7 has no row, and the lookup
  returns 1000 instead of signalling that the player is missing.
\<close>

theorem rating_lookup_not_found_counterexample:
  "map_of (players empty_db) 7 = None \<and> get_player_rating empty_db 7 = 1000"
  by (simp add: empty_db_def get_player_rating_def DEFAULT_RATING_def)

text \<open>
  C7, as the code has it: while the ids in the pending table are below \<open>2 ^ 63 - 1\<close>, the
  id \<open>add_pending_match\<close> returns is 1 when the table is empty and otherwise greater than
  every id in the table at that moment; it is the id of the one row added, so the
  pending rows keep distinct ids. \<open>delete_pending_match\<close> removes the rows of its id and
  leaves every other row as it is, and \<open>finalize_match\<close> raises and removes nothing. (An
  id whose row has been deleted can be returned again: see the counterexample.)
\<close>

theorem pending_id_above_pending_ids:
  assumes "add_pending_match db mt ps ws ls sc now = (pending_id, db')"
    and "\<forall>k \<in> set (map fst (pending_matches db)). k < 2 ^ 63 - 1"
  shows "(pending_matches db = [] \<longrightarrow> pending_id = 1)
       \<and> (\<forall>k \<in> set (map fst (pending_matches db)). k < pending_id)
       \<and> pending_id \<le> 2 ^ 63 - 1
       \<and> map fst (pending_matches db') = map fst (pending_matches db) @ [pending_id]
       \<and> (distinct (map fst (pending_matches db)) \<longrightarrow> distinct (map fst (pending_matches db')))
       \<and> pending_matches (delete_pending_match db k)
           = filter (\<lambda>(k', row). k' \<noteq> k) (pending_matches db)
       \<and> finalize_match db k ws' ls' sc' mt' now' = Inl OperationalError"
proof -
  from assms(1) have pid: "pending_id = next_rowid (pending_matches db)"
    and db': "pending_matches db' = pending_matches db @
        [(pending_id, \<lparr>match_type = mt, participants = ids_str ps, winner_ids = ids_str ws,
                       loser_ids = ids_str ls, score = sc, timestamp = now\<rparr>)]"
    by (auto simp: add_pending_match_def Let_def)
  have first: "pending_matches db = [] \<longrightarrow> pending_id = 1"
    by (simp add: pid next_rowid_def)
  have above: "\<forall>k \<in> set (map fst (pending_matches db)). k < pending_id"
    unfolding pid using next_rowid_greater [of _ "pending_matches db"] by auto
  have fits: "pending_id \<le> 2 ^ 63 - 1"
  proof (cases "pending_matches db = []")
    case True
    then show ?thesis by (simp add: pid next_rowid_def)
  next
    case False
    then have "Max (set (map fst (pending_matches db))) \<in> set (map fst (pending_matches db))"
      by (intro Max_in) simp_all
    with assms(2) have "Max (set (map fst (pending_matches db))) < 2 ^ 63 - 1" by blast
    moreover from False have "pending_id = Max (set (map fst (pending_matches db))) + 1"
      by (simp add: pid next_rowid_def)
    ultimately show ?thesis by linarith
  qed
  have keys: "map fst (pending_matches db') = map fst (pending_matches db) @ [pending_id]"
    by (simp add: db')
  have dist: "distinct (map fst (pending_matches db)) \<longrightarrow> distinct (map fst (pending_matches db'))"
    using above by (auto simp: keys)
  have del: "pending_matches (delete_pending_match db k)
           = filter (\<lambda>(k', row). k' \<noteq> k) (pending_matches db)"
    by (simp add: delete_pending_match_def sql_delete_def)
  from first above fits keys dist del finalize_match_raises [of db k ws' ls' sc' mt' now']
  show ?thesis by blast
qed

theorem pending_id_above_pending_ids_witness:
  "add_pending_match example_pending_db ''1vs1'' [1, 2] [2] [1] ''11-3'' 7 =
     (2, example_pending_db\<lparr>pending_matches := pending_matches example_pending_db @
           [(2, \<lparr>match_type = ''1vs1'', participants = ''1,2'', winner_ids = ''2'',
                  loser_ids = ''1'', score = ''11-3'', timestamp = 7\<rparr>)]\<rparr>)
   \<and> map fst (pending_matches example_pending_db) = [1]
   \<and> (1 :: int) < 2 ^ 63 - 1 \<and> (1 :: int) < 2 \<and> (2 :: int) \<le> 2 ^ 63 - 1
   \<and> distinct (map fst (pending_matches example_pending_db))
   \<and> pending_matches (delete_pending_match example_pending_db 1) = []
   \<and> finalize_match example_pending_db 1 [1] [2] ''11-9'' ''1vs1'' 9 = Inl OperationalError"
proof -
  have pm: "pending_matches example_pending_db =
      [(1, \<lparr>match_type = ''1vs1'', participants = ''1,2'', winner_ids = ''1'',
             loser_ids = ''2'', score = ''11-9'', timestamp = 0\<rparr>)]"
    by (simp add: example_pending_db_def)
  have a: "add_pending_match example_pending_db ''1vs1'' [1, 2] [2] [1] ''11-3'' 7 =
     (2, example_pending_db\<lparr>pending_matches := pending_matches example_pending_db @
           [(2, \<lparr>match_type = ''1vs1'', participants = ''1,2'', winner_ids = ''2'',
                  loser_ids = ''1'', score = ''11-3'', timestamp = 7\<rparr>)]\<rparr>)"
    by (simp add: add_pending_match_def Let_def ids_str_examples pm next_rowid_single)
  have b: "\<forall>k \<in> set (map fst (pending_matches example_pending_db)). k < 2 ^ 63 - 1"
    by (simp add: pm)
  from pending_id_above_pending_ids [OF a b, of 1 "[1]" "[2]" "''11-9''" "''1vs1''" 9] a
  show ?thesis by (simp add: pm)
qed

text \<open>
  The claim of C7 fails: the first pending match gets id 1; once it is deleted, by
  \<open>delete_pending_match\<close> or by the job, the next pending match gets id 1 again.
\<close>

theorem pending_id_reused_counterexample:
  "fst (add_pending_match empty_db ''1vs1'' [1, 2] [1] [2] ''11-9'' 0) = 1
   \<and> fst (add_pending_match
            (delete_pending_match
               (snd (add_pending_match empty_db ''1vs1'' [1, 2] [1] [2] ''11-9'' 0)) 1)
            ''1vs1'' [3, 4] [3] [4] ''11-7'' 1) = 1
   \<and> fst (add_pending_match
            (snd (delete_pending_match_job
                    (snd (add_pending_match empty_db ''1vs1'' [1, 2] [1] [2] ''11-9'' 0))
                    1 100 5))
            ''1vs1'' [3, 4] [3] [4] ''11-7'' 7201) = 1"
  by (simp add: add_pending_match_def delete_pending_match_def delete_pending_match_job_def
        get_pending_match_def Let_def next_rowid_def sql_delete_def empty_db_def)

text \<open>
  C8: a confirmation by a user who is not among the winners or losers of the pending match
  is answered with the "only a participant can confirm" message and leaves the whole
  database as it was: the pending row stays, no rating changes, no history row is written.
\<close>

theorem confirmation_by_non_participant:
  assumes "get_pending_match db match_id = Some (mt, winner_ids_str, loser_ids_str, sc)"
    and "parse_ids winner_ids_str = Inr ws"
    and "parse_ids loser_ids_str = Inr ls"
    and "user_id \<notin> set (ws @ ls)"
  shows "process_match_confirmation db match_id user_id now = Inr (OnlyParticipant, db)"
  using assms by (simp add: process_match_confirmation_def)

theorem confirmation_by_non_participant_witness:
  "get_pending_match example_pending_db 1 = Some (''1vs1'', ''1'', ''2'', ''11-9'')
   \<and> parse_ids ''1'' = Inr [1] \<and> parse_ids ''2'' = Inr [2] \<and> (3::int) \<notin> set ([1] @ [2])
   \<and> process_match_confirmation example_pending_db 1 3 0 = Inr (OnlyParticipant, example_pending_db)"
proof -
  have g: "get_pending_match example_pending_db 1 = Some (''1vs1'', ''1'', ''2'', ''11-9'')"
    by (simp add: get_pending_match_def example_pending_db_def)
  have n: "(3::int) \<notin> set ([1] @ [2])" by simp
  from confirmation_by_non_participant [OF g parse_ids_examples(1) parse_ids_examples(2) n, of 0]
  show ?thesis using g n parse_ids_examples by simp
qed

text \<open>
  C9: when the job runs on a match that is still pending, it sends exactly one
  notification, a reply to the original report, and removes the pending row of that match.
  Nothing else changes: the other pending rows, the players (ratings, wins, losses), the
  match history and the user mapping are as before.
\<close>

theorem expiry_removes_only_the_pending_row:
  assumes "get_pending_match db match_id = Some pending_match_data"
    and "delete_pending_match_job db match_id chat original_message_id = (sent, db')"
  shows "sent = [PendingExpired chat match_id original_message_id]
       \<and> get_pending_match db' match_id = None
       \<and> (\<forall>k. k \<noteq> match_id \<longrightarrow> get_pending_match db' k = get_pending_match db k)
       \<and> players db' = players db
       \<and> matches db' = matches db
       \<and> user_mapping db' = user_mapping db"
  using assms
  by (auto simp: delete_pending_match_job_def delete_pending_match_def get_pending_match_def
        map_of_sql_delete)

theorem expiry_removes_only_the_pending_row_witness:
  "get_pending_match example_pending_db 1 = Some (''1vs1'', ''1'', ''2'', ''11-9'')
   \<and> delete_pending_match_job example_pending_db 1 100 5 =
       ([PendingExpired 100 1 5], example_pending_db\<lparr>pending_matches := []\<rparr>)
   \<and> get_pending_match (example_pending_db\<lparr>pending_matches := []\<rparr>) 1 = None
   \<and> players (example_pending_db\<lparr>pending_matches := []\<rparr>) = players example_pending_db
   \<and> matches (example_pending_db\<lparr>pending_matches := []\<rparr>) = matches example_pending_db"
proof -
  have g: "get_pending_match example_pending_db 1 = Some (''1vs1'', ''1'', ''2'', ''11-9'')"
    by (simp add: get_pending_match_def example_pending_db_def)
  have r: "delete_pending_match_job example_pending_db 1 100 5 =
             ([PendingExpired 100 1 5], example_pending_db\<lparr>pending_matches := []\<rparr>)"
    unfolding delete_pending_match_job_def g
    by (simp add: delete_pending_match_def sql_delete_def example_pending_db_def)
  from expiry_removes_only_the_pending_row [OF g r] g r show ?thesis by simp
qed

text \<open>
  C10: \<open>calculate_elo_change 3000 1000\<close> is 0, and on a well-formed database with ratings
  in range a confirmation whose delta is 0 records a loss for every participant, the
  winners too: each one's \<open>losses\<close> goes up by one, and nobody's \<open>wins\<close> or rating changes.
  These are the rows the handler has committed when it ends in the \<open>OperationalError\<close> of
  \<open>finalize_match\<close>.
\<close>

theorem zero_delta_is_a_loss_for_everyone:
  assumes "db_inv db" and "ratings_in_range db"
    and "get_pending_match db match_id = Some (mt, winner_ids_str, loser_ids_str, sc)"
    and "parse_ids winner_ids_str = Inr ws"
    and "parse_ids loser_ids_str = Inr ls"
    and "user_id \<in> set (ws @ ls)"
    and "average (map (get_player_rating db) ws) = Inr avg_winner_rating"
    and "average (map (get_player_rating db) ls) = Inr avg_loser_rating"
    and "calculate_elo_change (py_trunc avg_winner_rating) (py_trunc avg_loser_rating) = Inr 0"
  shows "calculate_elo_change 3000 1000 = Inr 0
       \<and> (\<exists>db'. process_match_confirmation db match_id user_id now
                   = Inl (OperationalError, db')
           \<and> (\<forall>u \<in> set (ws @ ls). \<exists>p p'.
                 map_of (players db) u = Some p \<and> map_of (players db') u = Some p'
               \<and> losses p' = losses p + 1 \<and> wins p' = wins p \<and> rating p' = rating p)
           \<and> (\<forall>u. u \<notin> set (ws @ ls) \<longrightarrow> map_of (players db') u = map_of (players db) u))"
proof -
  from assms(3) obtain row :: pending_row
    where row: "map_of (pending_matches db) match_id = Some row"
      and wr: "winner_ids row = winner_ids_str" and lr: "loser_ids row = loser_ids_str"
    by (rule pending_row_of)
  from assms(4,5) wr lr have ws: "parse_ids (winner_ids row) = Inr ws"
    and ls: "parse_ids (loser_ids row) = Inr ls" by simp_all
  define db' where "db' = fold (\<lambda>u d. update_player_rating d u (- 0)) ls
                    (fold (\<lambda>u d. update_player_rating d u 0) ws db)"
  have run: "process_match_confirmation db match_id user_id now = Inl (OperationalError, db')"
    unfolding db'_def by (rule confirmation_eval [OF row ws ls assms(6-9)])
  note teams = confirmation_teams [OF assms(1) row ws ls]
  note pl = updated_players [OF teams(1), of 0 db, folded db'_def]
  have part: "\<exists>p p'. map_of (players db) u = Some p \<and> map_of (players db') u = Some p'
           \<and> losses p' = losses p + 1 \<and> wins p' = wins p \<and> rating p' = rating p"
    if u: "u \<in> set (ws @ ls)" for u
  proof -
    from u teams(3) have "u \<in> fst ` set (players db)" by blast
    then obtain p where p: "map_of (players db) u = Some p"
      by (metis map_of_eq_None_iff not_Some_eq)
    show ?thesis using u p by (auto simp: pl)
  qed
  have others: "map_of (players db') u = map_of (players db) u" if "u \<notin> set (ws @ ls)" for u
    using that by (simp add: pl)
  from calculate_elo_change_3000_1000 run part others show ?thesis by blast
qed

theorem zero_delta_is_a_loss_for_everyone_witness:
  "db_inv mismatch_db \<and> ratings_in_range mismatch_db
   \<and> get_pending_match mismatch_db 1 = Some (''1vs1'', ''1'', ''2'', ''11-0'')
   \<and> parse_ids ''1'' = Inr [1] \<and> parse_ids ''2'' = Inr [2]
   \<and> (2 :: int) \<in> set ([1] @ [2])
   \<and> average (map (get_player_rating mismatch_db) [1]) = Inr 3000
   \<and> average (map (get_player_rating mismatch_db) [2]) = Inr 1000
   \<and> calculate_elo_change (py_trunc 3000) (py_trunc 1000) = Inr 0
   \<and> process_match_confirmation mismatch_db 1 2 9 = Inl (OperationalError, mismatch_moved_db)
   \<and> map_option losses (map_of (players mismatch_db) 1) = Some 2
   \<and> map_option losses (map_of (players mismatch_moved_db) 1) = Some 3
   \<and> map_option wins (map_of (players mismatch_db) 1) = Some 40
   \<and> map_option wins (map_of (players mismatch_moved_db) 1) = Some 40
   \<and> map_option losses (map_of (players mismatch_db) 2) = Some 0
   \<and> map_option losses (map_of (players mismatch_moved_db) 2) = Some 1"
proof -
  have g: "get_pending_match mismatch_db 1 = Some (''1vs1'', ''1'', ''2'', ''11-0'')"
    by (simp add: get_pending_match_def mismatch_db_def)
  have p: "(2 :: int) \<in> set ([1] @ [2])" by simp
  have d: "calculate_elo_change (py_trunc 3000) (py_trunc 1000) = Inr 0"
    by (simp add: py_trunc_examples calculate_elo_change_3000_1000)
  have rows: "map_option losses (map_of (players mismatch_db) 1) = Some 2"
    "map_option losses (map_of (players mismatch_moved_db) 1) = Some 3"
    "map_option wins (map_of (players mismatch_db) 1) = Some 40"
    "map_option wins (map_of (players mismatch_moved_db) 1) = Some 40"
    "map_option losses (map_of (players mismatch_db) 2) = Some 0"
    "map_option losses (map_of (players mismatch_moved_db) 2) = Some 1"
    by (simp_all add: mismatch_db_def mismatch_moved_db_def)
  from zero_delta_is_a_loss_for_everyone
         [OF db_inv_mismatch_db ratings_in_range_examples(4) g
             parse_ids_examples(1) parse_ids_examples(2) p averages_mismatch_db d, of 9]
  show ?thesis
    using db_inv_mismatch_db ratings_in_range_examples(4) g parse_ids_examples p
      averages_mismatch_db d rows confirm_mismatch_db
    by simp
qed

end
